theory Spec2Isabelle
  imports Complex_Main
begin

section \<open>Python values shared by both scripts\<close>

text \<open>
  Both scripts are Python 3. Strings are modelled as \<open>string\<close> (a \<open>char\<close> is a code
  point below 256), integers as \<open>nat\<close> or \<open>int\<close>, a missing dictionary key read through
  \<open>d.get(k, default)\<close> as an \<open>option\<close> with the default written out, and the ways a
  script can stop early (an uncaught \<open>KeyError\<close>, \<open>AttributeError\<close> or \<open>TypeError\<close>, a
  call of \<open>sys.exit\<close>) as values of \<open>py_error\<close>.
\<close>

datatype py_error = KeyError | AttributeError | TypeError | SystemExit int

text \<open>
  The exit status of a script that ends with \<open>sys.exit(main())\<close>: the value \<open>main\<close>
  returns, the argument of a \<open>sys.exit\<close> inside it, or 1 after an uncaught exception.
\<close>

fun exit_status :: "py_error + int \<Rightarrow> int" where
  "exit_status (Inr n) = n"
| "exit_status (Inl (SystemExit n)) = n"
| "exit_status (Inl KeyError) = 1"
| "exit_status (Inl AttributeError) = 1"
| "exit_status (Inl TypeError) = 1"

text \<open>\<open>s.startswith(p)\<close>.\<close>

fun startswith :: "string \<Rightarrow> string \<Rightarrow> bool" where
  "startswith s [] = True"
| "startswith [] (p # ps) = False"
| "startswith (c # s) (p # ps) = (c = p \<and> startswith s ps)"

text \<open>
  \<open>s.count(p)\<close> for a non-empty \<open>p\<close>: the number of non-overlapping occurrences,
  scanning from the left; after a hit the scan resumes behind the occurrence.
\<close>

fun count_from :: "string \<Rightarrow> string \<Rightarrow> nat" where
  "count_from p [] = 0"
| "count_from p (c # s) =
     (if startswith (c # s) p then Suc (count_from p (drop (length p - 1) s))
      else count_from p s)"

text \<open>\<open>s.count(p)\<close>; Python returns \<open>len(s) + 1\<close> for the empty pattern.\<close>

definition str_count :: "string \<Rightarrow> string \<Rightarrow> nat" where
  "str_count s p = (if p = [] then length s + 1 else count_from p s)"

text \<open>\<open>p in s\<close> on strings.\<close>

fun str_contains :: "string \<Rightarrow> string \<Rightarrow> bool" where
  "str_contains [] p = (p = [])"
| "str_contains (c # s) p = (startswith (c # s) p \<or> str_contains s p)"

text \<open>\<open>sep.join(xs)\<close>.\<close>

fun join :: "string \<Rightarrow> string list \<Rightarrow> string" where
  "join sep [] = []"
| "join sep [x] = x"
| "join sep (x # y # ys) = x @ sep @ join sep (y # ys)"

section \<open>phase-tracker.py\<close>

subsection \<open>The phase registry\<close>

record phase_info =
  description :: string
  next_phase :: string
  gate :: "string option"
  required_artifacts :: "string list"
  allowed_actions :: "string list"
  forbidden_actions :: "string list"

text \<open>The dictionary \<open>PHASES\<close>, in the order of the source; \<open>next_phase\<close> is its key \<open>"next"\<close>.\<close>

definition PHASES_items :: "(string \<times> phase_info) list" where
  "PHASES_items =
    [(''ideation'',
      \<lparr>description = ''Define scope and constraints'',
       next_phase = ''development'',
       gate = Some ''gate_1_ideation_complete'',
       required_artifacts =
         [''requirements.md'', ''epics.md OR user-stories.md'', ''architecture.md'', ''risk-log.md''],
       allowed_actions = [''requirements_gathering'', ''architecture_design'', ''risk_assessment''],
       forbidden_actions = [''code_changes'']\<rparr>),
     (''development'',
      \<lparr>description = ''Implement approved stories'',
       next_phase = ''validation'',
       gate = Some ''gate_3_implementation_complete'',
       required_artifacts =
         [''story files (ACF-###.md)'', ''implementation code'', ''tests'', ''documentation updates''],
       allowed_actions = [''implement_stories'', ''write_tests'', ''update_docs''],
       forbidden_actions = [''unreviewed_dependencies'', ''untracked_changes'']\<rparr>),
     (''validation'',
      \<lparr>description = ''Run validation and quality checks'',
       next_phase = ''release'',
       gate = Some ''gate_5_security_approved'',
       required_artifacts = [''test_report.xml'', ''coverage_report.xml'', ''traceability_report.md''],
       allowed_actions = [''run_validation_scripts'', ''run_ci_checks''],
       forbidden_actions = [''disable_tests'', ''lower_coverage'']\<rparr>),
     (''release'',
      \<lparr>description = ''Package and release'',
       next_phase = ''maintenance'',
       gate = Some ''gate_6_release_ready'',
       required_artifacts =
         [''release_notes.md'', ''security_review_checklist.md'', ''release_readiness_checklist.md''],
       allowed_actions = [''package'', ''release''],
       forbidden_actions = [''release_with_violations'']\<rparr>),
     (''maintenance'',
      \<lparr>description = ''Operate and fix issues'',
       next_phase = ''ideation'',
       gate = None,
       required_artifacts = [],
       allowed_actions = [''operate'', ''fix_issues'', ''monitor''],
       forbidden_actions = [''silent_hotfixes'', ''untracked_changes'']\<rparr>)]"

definition PHASES :: "string \<rightharpoonup> phase_info" where
  "PHASES = map_of PHASES_items"

subsection \<open>The project state and the files the script touches\<close>

text \<open>
  One entry of \<open>state["history"]\<close>. The key \<open>from_phase\<close> is absent from the entry that
  \<open>init_state\<close> writes, hence the \<open>option\<close>.
\<close>

record history_entry =
  h_phase :: string
  h_entered_at :: string
  h_from_phase :: "string option"
  h_action :: string

record project_state =
  phase :: string
  entered_at :: string
  project_name :: string
  gate_checks :: "(string \<times> string) list"
  history :: "history_entry list"

text \<open>
  What the script reads and writes: the JSON document \<open>STATE_FILE\<close> (\<open>None\<close> while the
  file does not exist; the JSON encoding is not modelled), the text files under
  \<open>PROJECT_ROOT\<close> by their relative path, and the name of the project directory.
\<close>

record world =
  state_file :: "project_state option"
  files :: "string \<rightharpoonup> string"
  project_root_name :: string


definition save_state :: "world \<Rightarrow> project_state \<Rightarrow> world" where
  "save_state w state = w\<lparr>state_file := Some state\<rparr>"

text \<open>
  What a function printed, by the branch that printed it. The scripts report every
  outcome on standard output and return \<open>None\<close>; the text itself is not modelled.
\<close>

datatype report =
    NotInitialized
  | InvalidPhase
  | AlreadyInPhase
  | UnexpectedTransition
  | GateNotPassed
  | Transitioned
  | Initialized
  | StatusShown
  | GateChecked bool
  | HistoryShown



text \<open>The path \<open>config/gates/{phase}-gate.md\<close> below \<open>PROJECT_ROOT\<close>.\<close>

definition gate_file :: "string \<Rightarrow> string" where
  "gate_file ph = ''config/gates/'' @ ph @ ''-gate.md''"

text \<open>
  The percentage of \<open>check_gate\<close>. Python computes \<open>(checked / total) * 100\<close> in double
  precision; the model computes it exactly. The comparison \<open>percentage < 100\<close> has the
  same outcome in both as long as \<open>total\<close> is below \<open>2 ^ 53\<close>.
\<close>

definition percentage :: "nat \<Rightarrow> nat \<Rightarrow> real" where
  "percentage checked n_total = (real checked / real n_total) * 100"

definition checked_count :: "string \<Rightarrow> nat" where
  "checked_count content = str_count content ''[x]'' + str_count content ''[X]''"

definition unchecked_count :: "string \<Rightarrow> nat" where
  "unchecked_count content = str_count content ''[ ]''"

text \<open>
  \<open>check_gate(state)\<close>. \<open>if not gate\<close> holds for \<open>None\<close> and for the empty string.
  \<open>PHASES[phase]\<close> raises \<open>KeyError\<close> for a phase that is not a key.
\<close>

definition check_gate :: "world \<Rightarrow> project_state option \<Rightarrow> py_error + bool" where
  "check_gate w state =
    (case state of
       None \<Rightarrow> Inr False
     | Some st \<Rightarrow>
         (case PHASES (phase st) of
            None \<Rightarrow> Inl KeyError
          | Some phase_info \<Rightarrow>
              if gate phase_info = None \<or> gate phase_info = Some [] then Inr True
              else
                (case files w (gate_file (phase st)) of
                   None \<Rightarrow> Inr False
                 | Some content \<Rightarrow>
                     let checked = checked_count content;
                         unchecked = unchecked_count content;
                         total = checked + unchecked
                     in if total = 0 then Inr False
                        else if percentage checked total < 100 then Inr False
                        else Inr True)))"

text \<open>
  \<open>set_phase(state, new_phase, force)\<close>. The result is what was reported (or the
  exception that ended the call), the dictionary \<open>state\<close> as the call leaves it, and the
  files as the call leaves them. \<open>t1\<close> and \<open>t2\<close> are the two readings of the clock.
\<close>

definition set_phase ::
  "world \<Rightarrow> project_state option \<Rightarrow> string \<Rightarrow> bool \<Rightarrow> string \<Rightarrow> string
     \<Rightarrow> (py_error + report) \<times> project_state option \<times> world" where
  "set_phase w state new_phase force t1 t2 =
    (case state of
       None \<Rightarrow> (Inr NotInitialized, state, w)
     | Some st \<Rightarrow>
         if PHASES new_phase = None then (Inr InvalidPhase, state, w)
         else
           let current_phase = phase st in
           if current_phase = new_phase then (Inr AlreadyInPhase, state, w)
           else
             (case PHASES current_phase of
                None \<Rightarrow> (Inl KeyError, state, w)
              | Some phase_info \<Rightarrow>
                  let expected_next = next_phase phase_info in
                  if new_phase \<noteq> expected_next \<and> \<not> force then (Inr UnexpectedTransition, state, w)
                  else
                    (case (if \<not> force then check_gate w state else Inr True) of
                       Inl e \<Rightarrow> (Inl e, state, w)
                     | Inr gate_passed \<Rightarrow>
                         if \<not> gate_passed then (Inr GateNotPassed, state, w)
                         else
                           let st' = st\<lparr>phase := new_phase, entered_at := t1,
                                        history := history st @
                                          [\<lparr>h_phase = new_phase, h_entered_at = t2,
                                            h_from_phase = Some current_phase,
                                            h_action = (if \<not> force then ''transitioned''
                                                        else ''forced_transition'')\<rparr>]\<rparr>
                           in (Inr Transitioned, Some st', save_state w st'))))"





subsection \<open>The state invariant\<close>



text \<open>The state a successful \<open>set_phase\<close> leaves behind, named for the theorems below.\<close>

definition transition :: "project_state \<Rightarrow> string \<Rightarrow> bool \<Rightarrow> string \<Rightarrow> string \<Rightarrow> project_state" where
  "transition st new_phase force t1 t2 =
     st\<lparr>phase := new_phase, entered_at := t1,
        history := history st @
          [\<lparr>h_phase = new_phase, h_entered_at = t2, h_from_phase = Some (phase st),
            h_action = (if \<not> force then ''transitioned'' else ''forced_transition'')\<rparr>]\<rparr>"

section \<open>validate-enforcement-rules.py\<close>

subsection \<open>Regular expressions\<close>

text \<open>
  The patterns of the script use literals, character sets, \<open>\s\<close>, \<open>\d\<close>, \<open>\w\<close>,
  alternation, \<open>?\<close>, \<open>*\<close>, \<open>+\<close>, \<open>{20,}\<close> and the flag \<open>(?i)\<close>. The patterns are
  \<open>str\<close> patterns, so the classes are the Unicode ones. On the code points below 256:
  \<open>\s\<close> (and \<open>str.strip\<close>) is 9 to 13, 28 to 32, 133 and 160; \<open>\d\<close> is the ten digits;
  \<open>\w\<close> is the ASCII letters, digits and underscore and the alphanumeric code points
  above 127; and \<open>(?i)\<close> matches an ASCII letter of a pattern against its two cases
  only.
\<close>

definition is_space :: "char \<Rightarrow> bool" where
  "is_space c =
    (let n = (of_char c :: nat)
     in n = 32 \<or> (9 \<le> n \<and> n \<le> 13) \<or> (28 \<le> n \<and> n \<le> 31) \<or> n = 133 \<or> n = 160)"

definition is_digit :: "char \<Rightarrow> bool" where
  "is_digit c = (let n = (of_char c :: nat) in 48 \<le> n \<and> n \<le> 57)"

definition is_upper :: "char \<Rightarrow> bool" where
  "is_upper c = (let n = (of_char c :: nat) in 65 \<le> n \<and> n \<le> 90)"

definition is_lower :: "char \<Rightarrow> bool" where
  "is_lower c = (let n = (of_char c :: nat) in 97 \<le> n \<and> n \<le> 122)"

definition is_word :: "char \<Rightarrow> bool" where
  "is_word c =
    (let n = (of_char c :: nat)
     in is_upper c \<or> is_lower c \<or> is_digit c \<or> c = CHR ''_'' \<or>
        n = 170 \<or> n = 178 \<or> n = 179 \<or> n = 181 \<or> n = 185 \<or> n = 186 \<or>
        (188 \<le> n \<and> n \<le> 190) \<or> (192 \<le> n \<and> n \<le> 214) \<or>
        (216 \<le> n \<and> n \<le> 246) \<or> (248 \<le> n \<and> n \<le> 255))"

definition lower :: "char \<Rightarrow> char" where
  "lower c = (if is_upper c then char_of (of_char c + (32 :: nat)) else c)"

datatype cclass =
    Ch char
  | ChI char
  | OneOf string
  | NoneOf string
  | Space
  | Digit
  | WordOrDash

fun cmatch :: "cclass \<Rightarrow> char \<Rightarrow> bool" where
  "cmatch (Ch a) c = (c = a)"
| "cmatch (ChI a) c = (lower c = lower a)"
| "cmatch (OneOf as) c = (c \<in> set as)"
| "cmatch (NoneOf as) c = (c \<notin> set as)"
| "cmatch Space c = is_space c"
| "cmatch Digit c = is_digit c"
| "cmatch WordOrDash c = (is_word c \<or> c = CHR ''-'')"

datatype regex =
    Empty
  | Eps
  | Atom cclass
  | Alt regex regex
  | Seq regex regex
  | Star regex

text \<open>A literal string, \<open>r?\<close>, \<open>r+\<close> and \<open>r{n,}\<close>.\<close>

fun str :: "string \<Rightarrow> regex" where
  "str [] = Eps"
| "str (c # cs) = Seq (Atom (Ch c)) (str cs)"

fun istr :: "string \<Rightarrow> regex" where
  "istr [] = Eps"
| "istr (c # cs) = Seq (Atom (ChI c)) (istr cs)"

definition Opt :: "regex \<Rightarrow> regex" where
  "Opt r = Alt r Eps"

definition Plus :: "regex \<Rightarrow> regex" where
  "Plus r = Seq r (Star r)"

fun at_least :: "nat \<Rightarrow> regex \<Rightarrow> regex" where
  "at_least 0 r = Star r"
| "at_least (Suc n) r = Seq r (at_least n r)"

text \<open>Matching by derivatives; \<open>alt\<close> and \<open>seq\<close> drop the branches that cannot match.\<close>

fun nullable :: "regex \<Rightarrow> bool" where
  "nullable Empty = False"
| "nullable Eps = True"
| "nullable (Atom a) = False"
| "nullable (Alt r s) = (nullable r \<or> nullable s)"
| "nullable (Seq r s) = (nullable r \<and> nullable s)"
| "nullable (Star r) = True"

definition alt :: "regex \<Rightarrow> regex \<Rightarrow> regex" where
  "alt r s = (if r = Empty then s else if s = Empty then r else Alt r s)"

definition seq :: "regex \<Rightarrow> regex \<Rightarrow> regex" where
  "seq r s = (if r = Empty \<or> s = Empty then Empty else if r = Eps then s else Seq r s)"

fun deriv :: "char \<Rightarrow> regex \<Rightarrow> regex" where
  "deriv c Empty = Empty"
| "deriv c Eps = Empty"
| "deriv c (Atom a) = (if cmatch a c then Eps else Empty)"
| "deriv c (Alt r s) = alt (deriv c r) (deriv c s)"
| "deriv c (Seq r s) =
     (if nullable r then alt (seq (deriv c r) s) (deriv c s) else seq (deriv c r) s)"
| "deriv c (Star r) = seq (deriv c r) (Star r)"

text \<open>\<open>re.match(r, s)\<close>: some prefix of \<open>s\<close> matches \<open>r\<close>.\<close>

fun re_match :: "regex \<Rightarrow> string \<Rightarrow> bool" where
  "re_match r [] = nullable r"
| "re_match r (c # s) = (nullable r \<or> re_match (deriv c r) s)"

text \<open>\<open>re.search(r, s)\<close>: \<open>r\<close> matches at some position of \<open>s\<close>.\<close>

fun re_search :: "regex \<Rightarrow> string \<Rightarrow> bool" where
  "re_search r [] = nullable r"
| "re_search r (c # s) = (re_match r (c # s) \<or> re_search r s)"

text \<open>The words a pattern matches, to state what the matcher decides.\<close>

inductive_set star :: "string set \<Rightarrow> string set" for A :: "string set" where
  star_nil: "[] \<in> star A"
| star_step: "u \<in> A \<Longrightarrow> v \<in> star A \<Longrightarrow> u @ v \<in> star A"

fun lang :: "regex \<Rightarrow> string set" where
  "lang Empty = {}"
| "lang Eps = {[]}"
| "lang (Atom a) = {[c] | c. cmatch a c}"
| "lang (Alt r s) = lang r \<union> lang s"
| "lang (Seq r s) = {u @ v | u v. u \<in> lang r \<and> v \<in> lang s}"
| "lang (Star r) = star (lang r)"


subsection \<open>The rules, the context and the surroundings of the validator\<close>

text \<open>
  One entry of the list \<open>rules\<close> of the rules document. Every key is read with
  \<open>rule.get\<close>, so every key may be absent.
\<close>

record rule =
  r_name :: "string option"
  r_condition :: "string option"
  r_trigger :: "string option"
  r_paths :: "string list option"
  r_action :: "string option"
  r_message :: "string option"
  r_agent :: "string option"

text \<open>
  What a key of the rules document holds: the key is absent, it is there with the value
  \<open>null\<close>, or it holds a value.
\<close>

datatype 'a yaml_value = Absent | Null | Present 'a

text \<open>An entry of \<open>delegation\<close> and an entry of \<open>cross_cutting\<close>.\<close>

record delegation_entry =
  d_primary :: "string option"
  d_collaborators :: "string list option"

record cross_cutting_entry =
  x_skill :: "string option"
  x_owner :: "string option"
  x_collaborators :: "string list option"
  x_reason :: "string option"

text \<open>
  The rules document as \<open>yaml.safe_load\<close> returns it: \<open>None\<close> for an empty file,
  otherwise a mapping with the keys \<open>rules\<close>, \<open>delegation\<close> and \<open>cross_cutting\<close>.
\<close>

record rules_config =
  rules :: "rule list yaml_value"
  delegation :: "(string \<times> delegation_entry) list yaml_value"
  cross_cutting :: "cross_cutting_entry list yaml_value"

datatype yaml_doc = DocNull | DocMapping rules_config

text \<open>The dictionary \<open>context\<close>; \<open>validate_rule\<close> reads every key with \<open>context.get\<close>.\<close>

record validation_context =
  c_phase :: "string option"
  c_trigger :: "string option"
  c_modified_files :: "string list option"
  c_staged_files :: "string list option"
  c_commit_message :: "string option"
  c_matching_files :: "string list option"

text \<open>
  What the validator reads: the text files by path (a path that exists can be read), the
  rules documents by path, the standard output of the three git commands (\<open>None\<close> when
  the command fails with \<open>CalledProcessError\<close>), and the library function
  \<open>fnmatch.fnmatch\<close>, which the theorems leave open.
\<close>

record env =
  fs :: "string \<rightharpoonup> string"
  rules_docs :: "string \<rightharpoonup> yaml_doc"
  git_diff_cached :: "string option"
  git_diff_head :: "string option"
  git_log_subject :: "string option"
  fnmatch :: "string \<Rightarrow> string \<Rightarrow> bool"

text \<open>
  The command line as given (\<open>None\<close> for an option that is not given), and the
  namespace \<open>parse_args\<close> returns. The parser ends the process with status 2 when
  \<open>--phase\<close> or \<open>--trigger\<close> is not one of its choices.
\<close>

record options =
  o_phase :: "string option"
  o_trigger :: "string option"
  o_verbose :: bool
  o_check_only :: bool
  o_show_delegation :: bool
  o_rules_file :: "string option"

record args =
  a_phase :: string
  a_trigger :: string
  a_verbose :: bool
  a_check_only :: bool
  a_show_delegation :: bool
  a_rules_file :: string

definition phase_choices :: "string list" where
  "phase_choices = [''ideation'', ''development'', ''validation'', ''release'', ''maintenance'']"

definition trigger_choices :: "string list" where
  "trigger_choices = [''pre_commit'', ''post_edit'', ''phase_transition'', ''pull_request'']"

definition parse_args :: "options \<Rightarrow> py_error + args" where
  "parse_args opts =
    (if (case o_phase opts of None \<Rightarrow> False | Some p \<Rightarrow> p \<notin> set phase_choices)
     then Inl (SystemExit 2)
     else if (case o_trigger opts of None \<Rightarrow> False | Some t \<Rightarrow> t \<notin> set trigger_choices)
     then Inl (SystemExit 2)
     else Inr \<lparr>a_phase = (case o_phase opts of None \<Rightarrow> ''development'' | Some p \<Rightarrow> p),
               a_trigger = (case o_trigger opts of None \<Rightarrow> ''pre_commit'' | Some t \<Rightarrow> t),
               a_verbose = o_verbose opts,
               a_check_only = o_check_only opts,
               a_show_delegation = o_show_delegation opts,
               a_rules_file = (case o_rules_file opts of
                                 None \<Rightarrow> ''config/enforcement/rules.yaml''
                               | Some f \<Rightarrow> f)\<rparr>)"

definition load_rules :: "env \<Rightarrow> string \<Rightarrow> py_error + yaml_doc" where
  "load_rules e rules_path =
    (case rules_docs e rules_path of
       None \<Rightarrow> Inl (SystemExit 1)
     | Some doc \<Rightarrow> Inr doc)"

text \<open>\<open>s.strip()\<close> and \<open>s.split('\n')\<close>.\<close>

definition strip :: "string \<Rightarrow> string" where
  "strip s = rev (dropWhile is_space (rev (dropWhile is_space s)))"

fun split_lines :: "string \<Rightarrow> string list" where
  "split_lines [] = [[]]"
| "split_lines (c # s) =
     (if c = CHR 0x0A then [] # split_lines s
      else (case split_lines s of [] \<Rightarrow> [[c]] | l # ls \<Rightarrow> (c # l) # ls))"

definition stdout_lines :: "string option \<Rightarrow> string list" where
  "stdout_lines out =
    (case out of
       None \<Rightarrow> []
     | Some stdout \<Rightarrow> if strip stdout \<noteq> [] then split_lines (strip stdout) else [])"

definition get_git_staged_files :: "env \<Rightarrow> string list" where
  "get_git_staged_files e = stdout_lines (git_diff_cached e)"

definition get_git_modified_files :: "env \<Rightarrow> string list" where
  "get_git_modified_files e = stdout_lines (git_diff_head e)"

definition get_last_commit_message :: "env \<Rightarrow> string" where
  "get_last_commit_message e = (case git_log_subject e of None \<Rightarrow> [] | Some stdout \<Rightarrow> strip stdout)"

subsection \<open>The checks\<close>

text \<open>The pattern \<open>ACF-\d+\<close>.\<close>

definition story_id_re :: regex where
  "story_id_re = Seq (str ''ACF-'') (Plus (Atom Digit))"

definition check_story_id_in_message :: "string \<Rightarrow> bool" where
  "check_story_id_in_message message = re_search story_id_re message"

fun check_file_matches_patterns :: "env \<Rightarrow> string \<Rightarrow> string list \<Rightarrow> bool" where
  "check_file_matches_patterns e filepath [] = False"
| "check_file_matches_patterns e filepath (pattern # patterns) =
     (if fnmatch e filepath pattern then True
      else check_file_matches_patterns e filepath patterns)"

text \<open>The six patterns of \<open>secret_patterns\<close>; \<open>quote\<close> is the set \<open>["\']\<close>.\<close>

definition quote :: string where
  "quote = [CHR 0x22, CHR 0x27]"

definition assign :: regex where
  "assign = Seq (Star (Atom Space)) (Seq (Atom (OneOf ''=:'')) (Star (Atom Space)))"

definition api_key_re :: regex where
  "api_key_re =
     Seq (Alt (Seq (istr ''api'') (Seq (Opt (Atom (OneOf ''_-''))) (istr ''key''))) (istr ''apikey''))
       (Seq assign (Seq (Opt (Atom (OneOf quote))) (at_least 20 (Atom WordOrDash))))"

definition password_re :: regex where
  "password_re =
     Seq (Alt (istr ''password'') (Alt (istr ''passwd'') (istr ''pwd'')))
       (Seq assign
         (Seq (Atom (OneOf quote)) (Seq (Plus (Atom (NoneOf quote))) (Atom (OneOf quote)))))"

definition secret_token_re :: regex where
  "secret_token_re =
     Seq (Alt (istr ''secret'') (istr ''token''))
       (Seq assign (Seq (Opt (Atom (OneOf quote))) (at_least 20 (Atom WordOrDash))))"

definition aws_re :: regex where
  "aws_re =
     Seq (Alt (istr ''aws_access_key_id'') (istr ''aws_secret''))
       (Seq (Star (Atom Space)) (Atom (OneOf ''=:'')))"

definition private_key_re :: regex where
  "private_key_re =
     Seq (str ''-----BEGIN '')
       (Seq (Opt (Alt (str ''RSA '') (Alt (str ''EC '') (str ''DSA ''))))
         (str ''PRIVATE KEY-----''))"

definition bearer_re :: regex where
  "bearer_re = Seq (istr ''bearer'') (Seq (Plus (Atom Space)) (at_least 20 (Atom WordOrDash)))"

definition secret_patterns :: "(regex \<times> string) list" where
  "secret_patterns =
    [(api_key_re, ''Potential API key''),
     (password_re, ''Hardcoded password''),
     (secret_token_re, ''Potential secret/token''),
     (aws_re, ''AWS credentials''),
     (private_key_re, ''Private key''),
     (bearer_re, ''Bearer token'')]"

definition check_for_potential_secrets :: "string \<Rightarrow> string list" where
  "check_for_potential_secrets content =
     map snd (filter (\<lambda>(pattern, description). re_search pattern content) secret_patterns)"

definition forbidden_namespaces :: "string list" where
  "forbidden_namespaces =
    [''Infrastructure'', ''Application'', ''Microsoft.EntityFrameworkCore'', ''System.Net.Http'',
     ''Npgsql'']"

text \<open>
  \<open>check_domain_dependencies\<close>. Both tests are substring tests: \<open>'using.*' + ns\<close> is
  looked up literally.
\<close>

definition check_domain_dependencies :: "string \<Rightarrow> string \<Rightarrow> string list" where
  "check_domain_dependencies filepath content =
    (if \<not> str_contains filepath ''/Domain/'' then []
     else map (\<lambda>ns. ''Domain references forbidden namespace: '' @ ns)
            (filter (\<lambda>ns. str_contains content (''using '' @ ns) \<or>
                           str_contains content (''using.*'' @ ns))
               forbidden_namespaces))"

subsection \<open>One rule\<close>

text \<open>
  The three loops of \<open>validate_rule\<close> that return from inside: \<open>Some\<close> is the value
  returned from the loop, \<open>None\<close> means the loop ran to its end.
\<close>

fun secrets_loop :: "env \<Rightarrow> string list \<Rightarrow> (bool \<times> string) option" where
  "secrets_loop e [] = None"
| "secrets_loop e (filepath # rest) =
     (case fs e filepath of
        None \<Rightarrow> secrets_loop e rest
      | Some content \<Rightarrow>
          let secrets = check_for_potential_secrets content
          in if secrets \<noteq> []
             then Some (False, ''Potential secrets in '' @ filepath @ '': '' @ join '', '' secrets)
             else secrets_loop e rest)"

fun domain_loop :: "env \<Rightarrow> string list \<Rightarrow> (bool \<times> string) option" where
  "domain_loop e [] = None"
| "domain_loop e (filepath # rest) =
     (case fs e filepath of
        None \<Rightarrow> domain_loop e rest
      | Some content \<Rightarrow>
          let violations = check_domain_dependencies filepath content
          in if violations \<noteq> [] then Some (False, join [CHR 0x0A] violations)
             else domain_loop e rest)"

fun staged_loop :: "rule \<Rightarrow> string list \<Rightarrow> string list \<Rightarrow> (bool \<times> string) option" where
  "staged_loop rl staged [] = None"
| "staged_loop rl staged (filepath # rest) =
     (if filepath \<in> set staged
      then Some (False, (case r_message rl of
                           None \<Rightarrow> ''File should not be staged: '' @ filepath
                         | Some m \<Rightarrow> m))
      else staged_loop rl staged rest)"

text \<open>The chain \<open>if condition == ...\<close> of \<open>validate_rule\<close>, with its final \<open>return\<close>.\<close>

definition evaluate_condition :: "env \<Rightarrow> rule \<Rightarrow> validation_context \<Rightarrow> bool \<times> string" where
  "evaluate_condition e rl ctx =
    (let condition = (case r_condition rl of None \<Rightarrow> [] | Some c \<Rightarrow> c);
         passed = (True, ''Passed'')
     in
     if condition = ''!commit_message_has_story_id'' then
       (let message = (case c_commit_message ctx of
                         None \<Rightarrow> get_last_commit_message e | Some m \<Rightarrow> m)
        in if \<not> check_story_id_in_message message
           then (False, (case r_message rl of None \<Rightarrow> ''Story ID missing'' | Some m \<Rightarrow> m))
           else passed)
     else if condition = ''contains_potential_secrets'' then
       (case secrets_loop e
               (case c_matching_files ctx of
                  None \<Rightarrow> (case c_modified_files ctx of None \<Rightarrow> [] | Some fls \<Rightarrow> fls)
                | Some fls \<Rightarrow> fls) of
          Some r \<Rightarrow> r | None \<Rightarrow> passed)
     else if condition = ''domain_has_infrastructure_reference'' then
       (case domain_loop e (case c_matching_files ctx of None \<Rightarrow> [] | Some fls \<Rightarrow> fls) of
          Some r \<Rightarrow> r | None \<Rightarrow> passed)
     else if condition = ''file_staged'' then
       (case staged_loop rl (get_git_staged_files e)
               (case c_matching_files ctx of None \<Rightarrow> [] | Some fls \<Rightarrow> fls) of
          Some r \<Rightarrow> r | None \<Rightarrow> passed)
     else if condition = ''coverage < 80'' then passed
     else passed)"

text \<open>
  \<open>validate_rule(rule, context)\<close>: the pair it returns and the dictionary \<open>context\<close> as
  the call leaves it (the call may store \<open>matching_files\<close> into it).
\<close>

definition validate_rule ::
  "env \<Rightarrow> rule \<Rightarrow> validation_context \<Rightarrow> (bool \<times> string) \<times> validation_context" where
  "validate_rule e rl ctx =
    (let trigger = (case r_trigger rl of None \<Rightarrow> [] | Some t \<Rightarrow> t);
         paths = (case r_paths rl of None \<Rightarrow> [] | Some ps \<Rightarrow> ps)
     in
     if trigger = ''pre_commit'' \<and> c_trigger ctx \<noteq> Some ''pre_commit''
     then ((True, ''Skipped (wrong trigger)''), ctx)
     else if trigger = ''phase_transition'' \<and> c_trigger ctx \<noteq> Some ''phase_transition''
     then ((True, ''Skipped (wrong trigger)''), ctx)
     else if paths \<noteq> [] then
       (let modified_files = (case c_modified_files ctx of None \<Rightarrow> [] | Some fls \<Rightarrow> fls);
            matching_files = filter (\<lambda>f. check_file_matches_patterns e f paths) modified_files
        in if matching_files = [] then ((True, ''Skipped (no matching files)''), ctx)
           else (evaluate_condition e rl (ctx\<lparr>c_matching_files := Some matching_files\<rparr>),
                 ctx\<lparr>c_matching_files := Some matching_files\<rparr>))
     else (evaluate_condition e rl ctx, ctx))"

subsection \<open>All rules, and the exit status\<close>

text \<open>
  The loop of \<open>validate_all_rules\<close> over the rules, with the three counters
  \<open>(passed, warnings, errors)\<close> and the context that each call of \<open>validate_rule\<close>
  hands to the next.
\<close>

fun rules_loop ::
  "env \<Rightarrow> rule list \<Rightarrow> validation_context \<Rightarrow> nat \<times> nat \<times> nat \<Rightarrow> nat \<times> nat \<times> nat" where
  "rules_loop e [] ctx counters = counters"
| "rules_loop e (rl # rls) ctx (passed, warnings, errors) =
     (let action = (case r_action rl of None \<Rightarrow> ''warn'' | Some a \<Rightarrow> a);
          ((is_valid, message), ctx') = validate_rule e rl ctx
      in rules_loop e rls ctx'
           (if is_valid then (passed + 1, warnings, errors)
            else if action = ''block'' then (passed, warnings, errors + 1)
            else if action = ''warn'' then (passed, warnings + 1, errors)
            else if action = ''require_review'' then (passed, warnings + 1, errors)
            else if action = ''require_approval'' then (passed, warnings + 1, errors)
            else (passed, warnings, errors)))"

text \<open>
  \<open>validate_all_rules\<close>. \<open>rules_config.get\<close> raises \<open>AttributeError\<close> on \<open>None\<close>, and
  the \<open>for\<close> loop raises \<open>TypeError\<close> when the key \<open>rules\<close> holds \<open>null\<close>.
\<close>

definition validate_all_rules ::
  "env \<Rightarrow> yaml_doc \<Rightarrow> validation_context \<Rightarrow> bool \<Rightarrow> py_error + nat \<times> nat \<times> nat" where
  "validate_all_rules e rules_config ctx verbose =
    (case rules_config of
       DocNull \<Rightarrow> Inl AttributeError
     | DocMapping cfg \<Rightarrow>
         (case rules cfg of
            Null \<Rightarrow> Inl TypeError
          | Absent \<Rightarrow> Inr (rules_loop e [] ctx (0, 0, 0))
          | Present rls \<Rightarrow> Inr (rules_loop e rls ctx (0, 0, 0))))"

text \<open>
  \<open>print_delegation_info\<close> and \<open>print_cross_cutting_info\<close>: the lines printed for the
  entries, or the exception. \<open>delegation.items()\<close> raises \<open>AttributeError\<close> when the
  key holds \<open>null\<close>; a \<open>cross_cutting\<close> that is \<open>null\<close> or empty prints nothing.
\<close>

definition print_delegation_info :: "yaml_doc \<Rightarrow> py_error + string list" where
  "print_delegation_info rules_config =
    (case rules_config of
       DocNull \<Rightarrow> Inl AttributeError
     | DocMapping cfg \<Rightarrow>
         (case delegation cfg of
            Null \<Rightarrow> Inl AttributeError
          | Absent \<Rightarrow> Inr []
          | Present entries \<Rightarrow>
              Inr (map (\<lambda>(domain, config).
                          ''  '' @ domain @ '': '' @
                          (case d_primary config of None \<Rightarrow> ''unknown'' | Some p \<Rightarrow> p) @
                          (case d_collaborators config of
                             None \<Rightarrow> []
                           | Some cs \<Rightarrow> if cs = [] then []
                                       else '' (with: '' @ join '', '' cs @ '')''))
                     entries)))"

definition print_cross_cutting_info :: "yaml_doc \<Rightarrow> py_error + string list" where
  "print_cross_cutting_info rules_config =
    (case rules_config of
       DocNull \<Rightarrow> Inl AttributeError
     | DocMapping cfg \<Rightarrow>
         (case cross_cutting cfg of
            Null \<Rightarrow> Inr []
          | Absent \<Rightarrow> Inr []
          | Present entries \<Rightarrow>
              Inr (concat (map (\<lambda>collab.
                     [''  '' @ (case x_skill collab of None \<Rightarrow> ''unknown'' | Some k \<Rightarrow> k) @ '':'',
                      ''    Owner: '' @ (case x_owner collab of None \<Rightarrow> ''unknown'' | Some w \<Rightarrow> w),
                      ''    Collaborators: '' @
                        join '', '' (case x_collaborators collab of None \<Rightarrow> [] | Some cs \<Rightarrow> cs),
                      ''    Reason: '' @ (case x_reason collab of None \<Rightarrow> [] | Some r \<Rightarrow> r)])
                     entries))))"

text \<open>The dictionary \<open>context\<close> that \<open>main\<close> builds.\<close>

definition build_context :: "env \<Rightarrow> args \<Rightarrow> validation_context" where
  "build_context e a =
     \<lparr>c_phase = Some (a_phase a), c_trigger = Some (a_trigger a),
      c_modified_files = Some (get_git_modified_files e),
      c_staged_files = Some (get_git_staged_files e),
      c_commit_message = Some (get_last_commit_message e),
      c_matching_files = None\<rparr>"

text \<open>
  \<open>main()\<close> of the validator: the value it returns, or what ends it early (the parser
  and \<open>load_rules\<close> call \<open>sys.exit\<close>; nothing catches an exception).
\<close>

definition validator_main :: "env \<Rightarrow> options \<Rightarrow> py_error + int" where
  "validator_main e opts =
    (case parse_args opts of
       Inl err \<Rightarrow> Inl err
     | Inr a \<Rightarrow>
         (case load_rules e (a_rules_file a) of
            Inl err \<Rightarrow> Inl err
          | Inr rules_config \<Rightarrow>
              if a_show_delegation a then
                (case print_delegation_info rules_config of
                   Inl err \<Rightarrow> Inl err
                 | Inr printed \<Rightarrow>
                     (case print_cross_cutting_info rules_config of
                        Inl err \<Rightarrow> Inl err
                      | Inr printed' \<Rightarrow> Inr 0))
              else
                (case validate_all_rules e rules_config (build_context e a) (a_verbose a) of
                   Inl err \<Rightarrow> Inl err
                 | Inr (passed, warnings, errors) \<Rightarrow>
                     Inr (if errors > 0 then (if \<not> a_check_only a then 1 else 0)
                          else if warnings > 0 then 0
                          else 0))))"

text \<open>The exit status of the process, under \<open>sys.exit(main())\<close>.\<close>

definition validator_exit :: "env \<Rightarrow> options \<Rightarrow> int" where
  "validator_exit e opts = exit_status (validator_main e opts)"

text \<open>
  The outcomes of the rules in the order the loop evaluates them: each rule with the
  truth value \<open>validate_rule\<close> returned for it, in the context the loop had reached.
\<close>

fun evaluations :: "env \<Rightarrow> rule list \<Rightarrow> validation_context \<Rightarrow> (rule \<times> bool) list" where
  "evaluations e [] ctx = []"
| "evaluations e (rl # rls) ctx =
     (rl, fst (fst (validate_rule e rl ctx))) # evaluations e rls (snd (validate_rule e rl ctx))"

text \<open>The list that \<open>rules_config.get('rules', [])\<close> yields when it is a list.\<close>

definition rules_list :: "rules_config \<Rightarrow> rule list" where
  "rules_list cfg = (case rules cfg of Present rls \<Rightarrow> rls | Absent \<Rightarrow> [] | Null \<Rightarrow> [])"

text \<open>The rules a run of \<open>main\<close> evaluates, with their outcomes.\<close>

definition run_evaluations :: "env \<Rightarrow> args \<Rightarrow> (rule \<times> bool) list" where
  "run_evaluations e a =
    (case load_rules e (a_rules_file a) of
       Inl err \<Rightarrow> []
     | Inr DocNull \<Rightarrow> []
     | Inr (DocMapping cfg) \<Rightarrow>
         if a_show_delegation a then []
         else evaluations e (rules_list cfg) (build_context e a))"

definition blocking_failure :: "rule \<times> bool \<Rightarrow> bool" where
  "blocking_failure x = (\<not> snd x \<and> r_action (fst x) = Some ''block'')"

definition known_actions :: "string list" where
  "known_actions = [''block'', ''warn'', ''require_review'', ''require_approval'']"

definition warning_failure :: "rule \<times> bool \<Rightarrow> bool" where
  "warning_failure x =
     (\<not> snd x \<and>
      (case r_action (fst x) of
         None \<Rightarrow> True
       | Some a \<Rightarrow> a \<in> {''warn'', ''require_review'', ''require_approval''}))"

definition unknown_action_failure :: "rule \<times> bool \<Rightarrow> bool" where
  "unknown_action_failure x =
     (\<not> snd x \<and> (case r_action (fst x) of None \<Rightarrow> False | Some a \<Rightarrow> a \<notin> set known_actions))"

text \<open>
  A matcher for the patterns built from \<open>*\<close>, \<open>?\<close> and literal characters, to run
  the validator on examples; \<open>fnmatch\<close> agrees with it on patterns without \<open>[\<close>.
\<close>

fun glob_match :: "string \<Rightarrow> string \<Rightarrow> bool" where
  "glob_match [] [] = True"
| "glob_match (c # s) [] = False"
| "glob_match [] (p # ps) = (p = CHR ''*'' \<and> glob_match [] ps)"
| "glob_match (c # s) (p # ps) =
     (if p = CHR ''*'' then glob_match (c # s) ps \<or> glob_match s (p # ps)
      else (p = CHR ''?'' \<or> p = c) \<and> glob_match s ps)"


subsection \<open>The two filters of \<open>validate_rule\<close>, named\<close>

text \<open>
  The conditions under which \<open>validate_rule\<close> returns before it evaluates the
  condition of the rule, and the list it computes from \<open>paths\<close>.
\<close>

definition wrong_trigger :: "rule \<Rightarrow> validation_context \<Rightarrow> bool" where
  "wrong_trigger rl ctx =
    (r_trigger rl = Some ''pre_commit'' \<and> c_trigger ctx \<noteq> Some ''pre_commit'' \<or>
     r_trigger rl = Some ''phase_transition'' \<and> c_trigger ctx \<noteq> Some ''phase_transition'')"

definition rule_paths :: "rule \<Rightarrow> string list" where
  "rule_paths rl = (case r_paths rl of None \<Rightarrow> [] | Some ps \<Rightarrow> ps)"

definition matching :: "env \<Rightarrow> rule \<Rightarrow> validation_context \<Rightarrow> string list" where
  "matching e rl ctx =
     filter (\<lambda>f. check_file_matches_patterns e f (rule_paths rl))
       (case c_modified_files ctx of None \<Rightarrow> [] | Some fls \<Rightarrow> fls)"

definition dispatched_conditions :: "string list" where
  "dispatched_conditions =
    [''!commit_message_has_story_id'', ''contains_potential_secrets'',
     ''domain_has_infrastructure_reference'', ''file_staged'', ''coverage < 80'']"

section \<open>Example inputs\<close>

text \<open>
  A project initialised in \<open>ideation\<close>, and the files around it with a given text as
  the checklist of the \<open>ideation\<close> gate (or with no checklist at all).
\<close>

definition example_state :: project_state where
  "example_state =
     \<lparr>phase = ''ideation'', entered_at = ''2026-01-05T09:00:00'', project_name = ''factory'',
      gate_checks = [],
      history = [\<lparr>h_phase = ''ideation'', h_entered_at = ''2026-01-05T09:00:00'',
                  h_from_phase = None, h_action = ''initialized''\<rparr>]\<rparr>"

definition example_world :: "string option \<Rightarrow> world" where
  "example_world checklist =
     \<lparr>state_file = Some example_state,
      files = (\<lambda>path. if path = ''config/gates/ideation-gate.md'' then checklist else None),
      project_root_name = ''factory''\<rparr>"



definition checklist_3_of_4 :: string where
  "checklist_3_of_4 = ''- [x] scope - [X] risks - [x] epics - [ ] architecture''"

definition checklist_4_of_4 :: string where
  "checklist_4_of_4 = ''- [x] scope - [X] risks - [x] epics - [x] architecture''"

text \<open>
  A working tree for the validator: one modified Python file that assigns a password,
  a last commit without a story id, and the rules document at the default path (or no
  rules document).
\<close>

definition settings_py :: string where
  "settings_py = ''password = '' @ [CHR 0x22] @ ''hunter2shhh'' @ [CHR 0x22]"

text \<open>A file that mentions the word in a comment only.\<close>

definition comment_py :: string where
  "comment_py = ''# the password is read from the vault, never stored in this file''"

definition example_env_with :: "yaml_doc option \<Rightarrow> env" where
  "example_env_with doc =
     \<lparr>fs = (\<lambda>path. if path = ''src/settings.py'' then Some settings_py else None),
      rules_docs = (\<lambda>path. if path = ''config/enforcement/rules.yaml'' then doc else None),
      git_diff_cached = Some (''src/settings.py'' @ [CHR 0x0A]),
      git_diff_head = Some (''src/settings.py'' @ [CHR 0x0A]),
      git_log_subject = Some (''add login'' @ [CHR 0x0A]),
      fnmatch = glob_match\<rparr>"

text \<open>A rules document that holds a list of rules and nothing else.\<close>

definition rules_doc :: "rule list \<Rightarrow> yaml_doc" where
  "rules_doc rls = DocMapping \<lparr>rules = Present rls, delegation = Absent, cross_cutting = Absent\<rparr>"

definition example_env :: "rule list option \<Rightarrow> env" where
  "example_env rls = example_env_with (map_option rules_doc rls)"


text \<open>The command line with no option but, possibly, \<open>--check-only\<close>, and what it parses to.\<close>

definition example_options :: "bool \<Rightarrow> options" where
  "example_options check_only =
     \<lparr>o_phase = None, o_trigger = None, o_verbose = False, o_check_only = check_only,
      o_show_delegation = False, o_rules_file = None\<rparr>"

definition example_args :: "bool \<Rightarrow> args" where
  "example_args check_only =
     \<lparr>a_phase = ''development'', a_trigger = ''pre_commit'', a_verbose = False,
      a_check_only = check_only, a_show_delegation = False,
      a_rules_file = ''config/enforcement/rules.yaml''\<rparr>"

text \<open>Rules over that tree: the story id rule with a given action, and rules with \<open>paths\<close>.\<close>

definition story_rule :: "string \<Rightarrow> rule" where
  "story_rule action =
     \<lparr>r_name = Some ''story-id'', r_condition = Some ''!commit_message_has_story_id'',
      r_trigger = Some ''pre_commit'', r_paths = None, r_action = Some action,
      r_message = None, r_agent = None\<rparr>"

definition scoped_rule :: "string \<Rightarrow> string \<Rightarrow> string \<Rightarrow> rule" where
  "scoped_rule trigger pattern condition =
     \<lparr>r_name = Some ''scoped'', r_condition = Some condition,
      r_trigger = Some trigger, r_paths = Some [pattern], r_action = Some ''block'',
      r_message = None, r_agent = None\<rparr>"

section \<open>Properties of the phase tracker\<close>

lemma PHASES_cases:
  "PHASES ph = Some phase_info \<Longrightarrow>
     ph \<in> {''ideation'', ''development'', ''validation'', ''release'', ''maintenance''} \<and>
     gate phase_info \<noteq> Some [] \<and> PHASES (next_phase phase_info) \<noteq> None"
  by (auto simp: PHASES_def PHASES_items_def split: if_splits)

lemma PHASES_ideation: "PHASES ''ideation'' = Some (snd (hd PHASES_items))"
  by (simp add: PHASES_def PHASES_items_def)

lemma PHASES_development: "PHASES ''development'' \<noteq> None"
  by (simp add: PHASES_def PHASES_items_def)

lemma PHASES_release: "PHASES ''release'' \<noteq> None"
  by (simp add: PHASES_def PHASES_items_def)

lemma ideation_info:
  "next_phase (snd (hd PHASES_items)) = ''development'' \<and>
   gate (snd (hd PHASES_items)) = Some ''gate_1_ideation_complete''"
  by (simp add: PHASES_items_def)

lemma percentage_le: "checked \<le> n \<Longrightarrow> 0 < n \<Longrightarrow> percentage checked n \<le> 100"
  by (simp add: percentage_def divide_le_eq)

lemma check_gate_gated:
  assumes "PHASES (phase st) = Some phase_info" "gate phase_info \<noteq> None"
  shows "check_gate w (Some st) =
     Inr (case files w (gate_file (phase st)) of None \<Rightarrow> False
          | Some content \<Rightarrow> checked_count content + unchecked_count content \<noteq> 0 \<and>
               percentage (checked_count content) (checked_count content + unchecked_count content) = 100)"
proof -
  have g: "gate phase_info \<noteq> Some []" using PHASES_cases [OF assms(1)] by simp
  show ?thesis
  proof (cases "files w (gate_file (phase st))")
    case None
    then show ?thesis using assms g by (simp add: check_gate_def)
  next
    case (Some content)
    let ?c = "checked_count content" and ?u = "unchecked_count content"
    show ?thesis
    proof (cases "?c + ?u = 0")
      case True
      then show ?thesis using assms g Some by (simp add: check_gate_def Let_def)
    next
      case False
      then have "percentage ?c (?c + ?u) \<le> 100" by (intro percentage_le) auto
      then have "\<not> percentage ?c (?c + ?u) < 100 \<longleftrightarrow> percentage ?c (?c + ?u) = 100" by auto
      then show ?thesis using assms g Some False by (auto simp add: check_gate_def Let_def)
    qed
  qed
qed

lemma check_gate_ungated:
  "PHASES (phase st) = Some phase_info \<Longrightarrow> gate phase_info = None \<Longrightarrow> check_gate w (Some st) = Inr True"
  by (simp add: check_gate_def)

lemma example_counts:
  "checked_count checklist_3_of_4 = 3 \<and> unchecked_count checklist_3_of_4 = 1 \<and>
   checked_count checklist_4_of_4 = 4 \<and> unchecked_count checklist_4_of_4 = 0 \<and>
   checked_count ''no markers'' = 0 \<and> unchecked_count ''no markers'' = 0"
  by (simp add: checked_count_def unchecked_count_def str_count_def checklist_3_of_4_def checklist_4_of_4_def)

lemma example_files:
  "files (example_world c) (gate_file (phase example_state)) = c"
  by (simp add: example_world_def example_state_def gate_file_def)

lemma example_phase: "phase example_state = ''ideation''"
  by (simp add: example_state_def)

text \<open>
  C2. For a phase with a gate, \<open>check_gate\<close> fails when the checklist file is missing or
  holds no marker, and otherwise passes exactly when
  \<open>checked / (checked + unchecked) * 100\<close> is 100, where \<open>checked\<close> counts \<open>[x]\<close> and
  \<open>[X]\<close> and \<open>unchecked\<close> counts \<open>[ ]\<close>. Three of four is 75, four of four is 100.
\<close>
theorem gate_check_percentage:
  assumes "PHASES (phase st) = Some phase_info" and "gate phase_info \<noteq> None"
  shows "check_gate w (Some st) =
           Inr (case files w (gate_file (phase st)) of
                  None \<Rightarrow> False
                | Some content \<Rightarrow>
                    checked_count content + unchecked_count content \<noteq> 0 \<and>
                    percentage (checked_count content)
                      (checked_count content + unchecked_count content) = 100) \<and>
         (\<forall>content. checked_count content = str_count content ''[x]'' + str_count content ''[X]'' \<and>
                    unchecked_count content = str_count content ''[ ]'') \<and>
         (\<forall>c u. percentage c (c + u) = real c / (real c + real u) * 100) \<and>
         percentage 3 (3 + 1) = 75 \<and> percentage 4 (4 + 0) = 100"
  using check_gate_gated [OF assms]
  by (simp add: checked_count_def unchecked_count_def percentage_def)

text \<open>
  The gate of \<open>ideation\<close> on four checklists: three of four markers checked, all four
  checked, no marker, no file.
\<close>
theorem gate_check_percentage_witness:
  "PHASES (phase example_state) = Some (snd (hd PHASES_items)) \<and>
   gate (snd (hd PHASES_items)) \<noteq> None \<and>
   check_gate (example_world (Some checklist_3_of_4)) (Some example_state) = Inr False \<and>
   check_gate (example_world (Some checklist_4_of_4)) (Some example_state) = Inr True \<and>
   check_gate (example_world (Some ''no markers'')) (Some example_state) = Inr False \<and>
   check_gate (example_world None) (Some example_state) = Inr False"
proof -
  have h1: "PHASES (phase example_state) = Some (snd (hd PHASES_items))"
    by (simp add: example_phase PHASES_ideation)
  have h2: "gate (snd (hd PHASES_items)) \<noteq> None"
    by (simp add: ideation_info)
  show ?thesis
    using h1 h2 gate_check_percentage [OF h1 h2, of "example_world (Some checklist_3_of_4)", THEN conjunct1]
      gate_check_percentage [OF h1 h2, of "example_world (Some checklist_4_of_4)", THEN conjunct1]
      gate_check_percentage [OF h1 h2, of "example_world (Some ''no markers'')", THEN conjunct1]
      gate_check_percentage [OF h1 h2, of "example_world None", THEN conjunct1]
    by (simp add: example_files example_counts percentage_def)
qed

text \<open>
  C1. From a state whose phase is a key of the registry, to a different key of the
  registry and without \<open>force\<close>: \<open>set_phase\<close> changes the phase and writes the state
  exactly when the target is the \<open>next\<close> of the current phase and \<open>check_gate\<close> passes,
  which it does when the phase has no gate or its checklist is at 100 percent; otherwise
  it leaves the state and the files alone.
\<close>
theorem set_phase_unforced:
  assumes "PHASES (phase st) = Some phase_info" and "PHASES new_phase \<noteq> None"
    and "new_phase \<noteq> phase st"
  shows "set_phase w (Some st) new_phase False t1 t2 =
     (if new_phase = next_phase phase_info \<and> check_gate w (Some st) = Inr True
      then (Inr Transitioned, Some (transition st new_phase False t1 t2),
            w\<lparr>state_file := Some (transition st new_phase False t1 t2)\<rparr>)
      else (Inr (if new_phase \<noteq> next_phase phase_info then UnexpectedTransition
                 else GateNotPassed),
            Some st, w)) \<and>
     (check_gate w (Some st) = Inr True) =
       (gate phase_info = None \<or>
        (\<exists>content. files w (gate_file (phase st)) = Some content \<and>
           checked_count content + unchecked_count content \<noteq> 0 \<and>
           percentage (checked_count content)
             (checked_count content + unchecked_count content) = 100))"
proof -
  have "\<exists>b. check_gate w (Some st) = Inr b"
    using assms(1) by (auto simp add: check_gate_def Let_def split: option.splits)
  then obtain b where b: "check_gate w (Some st) = Inr b" ..
  have first: "set_phase w (Some st) new_phase False t1 t2 =
     (if new_phase = next_phase phase_info \<and> check_gate w (Some st) = Inr True
      then (Inr Transitioned, Some (transition st new_phase False t1 t2),
            w\<lparr>state_file := Some (transition st new_phase False t1 t2)\<rparr>)
      else (Inr (if new_phase \<noteq> next_phase phase_info then UnexpectedTransition
                 else GateNotPassed),
            Some st, w))"
    using assms b
    by (auto simp: set_phase_def transition_def save_state_def Let_def)
  have second: "(check_gate w (Some st) = Inr True) =
       (gate phase_info = None \<or>
        (\<exists>content. files w (gate_file (phase st)) = Some content \<and>
           checked_count content + unchecked_count content \<noteq> 0 \<and>
           percentage (checked_count content)
             (checked_count content + unchecked_count content) = 100))"
  proof (cases "gate phase_info")
    case None
    then show ?thesis using check_gate_ungated [OF assms(1)] by simp
  next
    case (Some g)
    then have "gate phase_info \<noteq> None" by simp
    from check_gate_gated [OF assms(1) this, of w] Some show ?thesis
      by (auto split: option.splits)
  qed
  from first second show ?thesis by blast
qed

text \<open>From \<open>ideation\<close>: to \<open>development\<close> with a full and with a partial checklist, and to \<open>release\<close>.\<close>
theorem set_phase_unforced_witness:
  "PHASES (phase example_state) = Some (snd (hd PHASES_items)) \<and>
   PHASES ''development'' \<noteq> None \<and> ''development'' \<noteq> phase example_state \<and>
   PHASES ''release'' \<noteq> None \<and> ''release'' \<noteq> phase example_state \<and>
   set_phase (example_world (Some checklist_4_of_4)) (Some example_state) ''development'' False
       ''t1'' ''t2'' =
     (Inr Transitioned, Some (transition example_state ''development'' False ''t1'' ''t2''),
      (example_world (Some checklist_4_of_4))
        \<lparr>state_file := Some (transition example_state ''development'' False ''t1'' ''t2'')\<rparr>) \<and>
   set_phase (example_world (Some checklist_3_of_4)) (Some example_state) ''development'' False
       ''t1'' ''t2'' =
     (Inr GateNotPassed, Some example_state, example_world (Some checklist_3_of_4)) \<and>
   set_phase (example_world (Some checklist_4_of_4)) (Some example_state) ''release'' False
       ''t1'' ''t2'' =
     (Inr UnexpectedTransition, Some example_state, example_world (Some checklist_4_of_4))"
proof -
  have h1: "PHASES (phase example_state) = Some (snd (hd PHASES_items))"
    by (simp add: example_phase PHASES_ideation)
  have h2: "PHASES ''development'' \<noteq> None" by (rule PHASES_development)
  have h3: "''development'' \<noteq> phase example_state" by (simp add: example_phase)
  have h4: "PHASES ''release'' \<noteq> None" by (rule PHASES_release)
  have h5: "''release'' \<noteq> phase example_state" by (simp add: example_phase)
  show ?thesis
    using h1 h2 h3 h4 h5
      set_phase_unforced [OF h1 h2 h3, of "example_world (Some checklist_4_of_4)" "''t1''" "''t2''"]
      set_phase_unforced [OF h1 h2 h3, of "example_world (Some checklist_3_of_4)" "''t1''" "''t2''"]
      set_phase_unforced [OF h1 h4 h5, of "example_world (Some checklist_4_of_4)" "''t1''" "''t2''"]
    by (simp add: ideation_info example_files example_counts percentage_def)
qed

text \<open>
  C3. A request for the current phase, for a phase that is no key of the registry, for a
  phase other than the expected next one without \<open>force\<close>, or with a gate that does not
  pass without \<open>force\<close>, leaves the state and the files as they were and is no transition.
\<close>
theorem set_phase_refused_unchanged:
  assumes "new_phase = phase st \<or> PHASES new_phase = None \<or>
           (\<not> force \<and> (\<forall>phase_info. PHASES (phase st) = Some phase_info \<longrightarrow>
                                     new_phase \<noteq> next_phase phase_info)) \<or>
           (\<not> force \<and> check_gate w (Some st) \<noteq> Inr True)"
  shows "snd (set_phase w (Some st) new_phase force t1 t2) = (Some st, w) \<and>
         fst (set_phase w (Some st) new_phase force t1 t2) \<noteq> Inr Transitioned"
  using assms
  by (auto simp: set_phase_def Let_def split: option.splits sum.splits)

lemma example_gate_3_of_4:
  "check_gate (example_world (Some checklist_3_of_4)) (Some example_state) = Inr False"
  using check_gate_gated [of example_state "snd (hd PHASES_items)" "example_world (Some checklist_3_of_4)"]
  by (simp add: example_files [simplified example_phase] example_phase PHASES_ideation ideation_info example_counts percentage_def)

text \<open>The four refusals, from \<open>ideation\<close>.\<close>
theorem set_phase_refused_unchanged_witness:
  "set_phase (example_world None) (Some example_state) ''ideation'' False ''t1'' ''t2'' =
     (Inr AlreadyInPhase, Some example_state, example_world None) \<and>
   set_phase (example_world None) (Some example_state) ''design'' True ''t1'' ''t2'' =
     (Inr InvalidPhase, Some example_state, example_world None) \<and>
   set_phase (example_world None) (Some example_state) ''release'' False ''t1'' ''t2'' =
     (Inr UnexpectedTransition, Some example_state, example_world None) \<and>
   set_phase (example_world (Some checklist_3_of_4)) (Some example_state) ''development'' False
       ''t1'' ''t2'' =
     (Inr GateNotPassed, Some example_state, example_world (Some checklist_3_of_4))"
proof -
  have a: "''ideation'' = phase example_state" by (simp add: example_phase)
  have b: "PHASES ''design'' = None" by (simp add: PHASES_def PHASES_items_def)
  have c: "\<forall>phase_info. PHASES (phase example_state) = Some phase_info \<longrightarrow>
             ''release'' \<noteq> next_phase phase_info"
    by (simp add: example_phase PHASES_ideation ideation_info)
  have d: "check_gate (example_world (Some checklist_3_of_4)) (Some example_state) \<noteq> Inr True"
    by (simp add: example_gate_3_of_4)
  have r1: "fst (set_phase (example_world None) (Some example_state) ''ideation'' False ''t1'' ''t2'')
              = Inr AlreadyInPhase"
    by (simp add: set_phase_def example_phase PHASES_ideation)
  have r2: "fst (set_phase (example_world None) (Some example_state) ''design'' True ''t1'' ''t2'')
              = Inr InvalidPhase"
    by (simp add: set_phase_def b)
  have r3: "fst (set_phase (example_world None) (Some example_state) ''release'' False ''t1'' ''t2'')
              = Inr UnexpectedTransition"
    by (simp add: set_phase_def example_phase PHASES_ideation ideation_info PHASES_release [simplified])
  have r4: "fst (set_phase (example_world (Some checklist_3_of_4)) (Some example_state)
                  ''development'' False ''t1'' ''t2'') = Inr GateNotPassed"
    using PHASES_development
    by (auto simp add: set_phase_def example_phase PHASES_ideation ideation_info example_gate_3_of_4)
  from set_phase_refused_unchanged [of "''ideation''" example_state False "example_world None" "''t1''" "''t2''"]
       set_phase_refused_unchanged [of "''design''" example_state True "example_world None" "''t1''" "''t2''"]
       set_phase_refused_unchanged [of "''release''" example_state False "example_world None" "''t1''" "''t2''"]
       set_phase_refused_unchanged [of "''development''" example_state False
          "example_world (Some checklist_3_of_4)" "''t1''" "''t2''"]
       a b c d r1 r2 r3 r4
  show ?thesis by (simp add: prod_eq_iff)
qed

text \<open>
  C4. With \<open>force\<close>, from a state whose phase is a key of the registry to any other key:
  the transition happens whatever the \<open>next\<close> of the current phase and whatever the
  checklist files hold (the result does not read them), and the entry it appends has
  the action \<open>forced_transition\<close> and the previous phase as \<open>from_phase\<close>.
\<close>
theorem set_phase_forced:
  assumes "PHASES (phase st) \<noteq> None" and "PHASES new_phase \<noteq> None" and "new_phase \<noteq> phase st"
  shows "set_phase w (Some st) new_phase True t1 t2 =
     (Inr Transitioned, Some (transition st new_phase True t1 t2),
       w\<lparr>state_file := Some (transition st new_phase True t1 t2)\<rparr>) \<and>
     phase (transition st new_phase True t1 t2) = new_phase \<and>
     history (transition st new_phase True t1 t2) =
       history st @ [\<lparr>h_phase = new_phase, h_entered_at = t2, h_from_phase = Some (phase st),
                      h_action = ''forced_transition''\<rparr>] \<and>
     (\<forall>fs. fst (snd (set_phase (w\<lparr>files := fs\<rparr>) (Some st) new_phase True t1 t2)) =
           fst (snd (set_phase w (Some st) new_phase True t1 t2)))"
  using assms by (auto simp: set_phase_def transition_def save_state_def Let_def)

text \<open>From \<open>ideation\<close> straight to \<open>release\<close>, with no checklist on disk.\<close>
theorem set_phase_forced_witness:
  "PHASES (phase example_state) \<noteq> None \<and> PHASES ''release'' \<noteq> None \<and>
   ''release'' \<noteq> phase example_state \<and>
   set_phase (example_world None) (Some example_state) ''release'' True ''t1'' ''t2'' =
     (Inr Transitioned, Some (transition example_state ''release'' True ''t1'' ''t2''),
      (example_world None)\<lparr>state_file := Some (transition example_state ''release'' True ''t1'' ''t2'')\<rparr>) \<and>
   history (transition example_state ''release'' True ''t1'' ''t2'') =
     history example_state @
       [\<lparr>h_phase = ''release'', h_entered_at = ''t2'', h_from_phase = Some ''ideation'',
         h_action = ''forced_transition''\<rparr>]"
proof -
  have h1: "PHASES (phase example_state) \<noteq> None" by (simp add: example_phase PHASES_ideation)
  have h2: "PHASES ''release'' \<noteq> None" by (rule PHASES_release)
  have h3: "''release'' \<noteq> phase example_state" by (simp add: example_phase)
  show ?thesis
    using h1 h2 h3 set_phase_forced [OF h1 h2 h3, of "example_world None" "''t1''" "''t2''"]
    by (simp add: example_phase)
qed






section \<open>Properties of the rule validator\<close>

lemma validate_rule_cases:
  "validate_rule e rl ctx =
    (if wrong_trigger rl ctx then ((True, ''Skipped (wrong trigger)''), ctx)
     else if rule_paths rl = [] then (evaluate_condition e rl ctx, ctx)
     else if matching e rl ctx = [] then ((True, ''Skipped (no matching files)''), ctx)
     else (evaluate_condition e rl (ctx\<lparr>c_matching_files := Some (matching e rl ctx)\<rparr>),
           ctx\<lparr>c_matching_files := Some (matching e rl ctx)\<rparr>))"
  by (auto simp: validate_rule_def wrong_trigger_def rule_paths_def matching_def Let_def
           split: option.splits)

text \<open>
  C7. A rule whose condition is none of the five dispatched identifiers, and which is
  skipped neither by its trigger nor by its paths, evaluates to passed with the message
  \<open>Passed\<close>.
\<close>
theorem unknown_condition_passes:
  assumes "(case r_condition rl of None \<Rightarrow> [] | Some c \<Rightarrow> c) \<notin> set dispatched_conditions"
    and "\<not> wrong_trigger rl ctx"
    and "rule_paths rl = [] \<or> matching e rl ctx \<noteq> []"
  shows "fst (validate_rule e rl ctx) = (True, ''Passed'')"
  using assms
  by (auto simp: validate_rule_cases evaluate_condition_def dispatched_conditions_def Let_def)

lemma ex_story: "\<not> check_story_id_in_message ''add login''"
  by (simp add: check_story_id_in_message_def story_id_re_def Plus_def seq_def alt_def)

lemma rules_loop_counts:
  "rules_loop e rls ctx (p, w, er) =
     (p + length (filter snd (evaluations e rls ctx)),
      w + length (filter warning_failure (evaluations e rls ctx)),
      er + length (filter blocking_failure (evaluations e rls ctx)))"
proof (induction rls arbitrary: ctx p w er)
  case Nil
  then show ?case by simp
next
  case (Cons rl rls)
  obtain ok msg ctx' where v: "validate_rule e rl ctx = ((ok, msg), ctx')"
    by (metis surj_pair)
  show ?case
    using v Cons.IH [of ctx']
    by (cases "r_action rl")
       (auto simp: warning_failure_def blocking_failure_def)
qed

lemma outcome_simps:
  "blocking_failure (rl, ok) = (\<not> ok \<and> r_action rl = Some ''block'')"
  "warning_failure (rl, ok) =
     (\<not> ok \<and> (r_action rl = None \<or> r_action rl = Some ''warn'' \<or>
               r_action rl = Some ''require_review'' \<or> r_action rl = Some ''require_approval''))"
  "unknown_action_failure (rl, ok) =
     (\<not> ok \<and> (\<exists>a. r_action rl = Some a \<and> a \<noteq> ''block'' \<and> a \<noteq> ''warn'' \<and>
               a \<noteq> ''require_review'' \<and> a \<noteq> ''require_approval''))"
  by (auto simp: blocking_failure_def warning_failure_def unknown_action_failure_def
        known_actions_def split: option.splits)

lemma evaluations_partition:
  "length (filter snd (evaluations e rls ctx)) +
   length (filter warning_failure (evaluations e rls ctx)) +
   length (filter blocking_failure (evaluations e rls ctx)) +
   length (filter unknown_action_failure (evaluations e rls ctx)) = length rls"
proof (induction rls arbitrary: ctx)
  case Nil
  then show ?case by simp
next
  case (Cons rl rls)
  have "length (filter snd (evaluations e rls (snd (validate_rule e rl ctx)))) +
   length (filter warning_failure (evaluations e rls (snd (validate_rule e rl ctx)))) +
   length (filter blocking_failure (evaluations e rls (snd (validate_rule e rl ctx)))) +
   length (filter unknown_action_failure (evaluations e rls (snd (validate_rule e rl ctx)))) = length rls"
    by (rule Cons.IH)
  then show ?case
    by (cases "r_action rl") (auto simp: outcome_simps)
qed

lemma blocking_nonempty: "(filter blocking_failure xs \<noteq> []) = list_ex blocking_failure xs"
  by (induction xs) auto



lemma ex_context_with:
  "build_context (example_env_with doc) (example_args c) =
     \<lparr>c_phase = Some ''development'', c_trigger = Some ''pre_commit'',
      c_modified_files = Some [''src/settings.py''],
      c_staged_files = Some [''src/settings.py''],
      c_commit_message = Some ''add login'', c_matching_files = None\<rparr>"
  by (simp add: build_context_def example_args_def get_git_modified_files_def
        get_git_staged_files_def get_last_commit_message_def example_env_with_def
        stdout_lines_def strip_def is_space_def)

lemma ex_context:
  "build_context (example_env rls) (example_args c) =
     \<lparr>c_phase = Some ''development'', c_trigger = Some ''pre_commit'',
      c_modified_files = Some [''src/settings.py''],
      c_staged_files = Some [''src/settings.py''],
      c_commit_message = Some ''add login'', c_matching_files = None\<rparr>"
  by (simp add: example_env_def ex_context_with)

lemma ex_story_rule:
  "validate_rule (example_env rls) (story_rule action) (build_context (example_env rls) (example_args c)) =
     ((False, ''Story ID missing''), build_context (example_env rls) (example_args c))"
  by (simp add: ex_context validate_rule_cases wrong_trigger_def rule_paths_def story_rule_def
        evaluate_condition_def ex_story)

lemma ex_parse: "parse_args (example_options c) = Inr (example_args c)"
  by (simp add: parse_args_def example_options_def example_args_def)

lemma ex_rules_docs_with:
  "rules_docs (example_env_with doc) (a_rules_file (example_args c)) = doc"
  by (simp add: example_env_with_def example_args_def)

lemma ex_rules_docs:
  "rules_docs (example_env rls) (a_rules_file (example_args c)) = map_option rules_doc rls"
  by (simp add: example_env_def ex_rules_docs_with)

lemma ex_show_delegation: "a_show_delegation (example_args c) = False"
  by (simp add: example_args_def)

lemma ex_run_story:
  "run_evaluations (example_env (Some [story_rule action])) (example_args c) = [(story_rule action, False)]"
  by (simp add: run_evaluations_def load_rules_def ex_rules_docs rules_doc_def rules_list_def
        ex_story_rule ex_show_delegation)






lemma ex_matching_py:
  "matching (example_env rls) (scoped_rule t ''*.py'' cond) (build_context (example_env rls) (example_args c))
     = [''src/settings.py'']"
  by (simp add: matching_def ex_context rule_paths_def scoped_rule_def)
     (simp add: example_env_def example_env_with_def)

lemma ex_matching_cs:
  "matching (example_env rls) (scoped_rule t ''*.cs'' cond) (build_context (example_env rls) (example_args c))
     = []"
  by (simp add: matching_def ex_context rule_paths_def scoped_rule_def)
     (simp add: example_env_def example_env_with_def)

text \<open>A rule with an unknown condition, scoped to the modified Python file.\<close>
theorem unknown_condition_passes_witness:
  "(case r_condition (scoped_rule ''pre_commit'' ''*.py'' ''no_such_condition'') of
      None \<Rightarrow> [] | Some c \<Rightarrow> c) \<notin> set dispatched_conditions \<and>
   \<not> wrong_trigger (scoped_rule ''pre_commit'' ''*.py'' ''no_such_condition'')
       (build_context (example_env None) (example_args False)) \<and>
   matching (example_env None) (scoped_rule ''pre_commit'' ''*.py'' ''no_such_condition'')
       (build_context (example_env None) (example_args False)) \<noteq> [] \<and>
   fst (validate_rule (example_env None) (scoped_rule ''pre_commit'' ''*.py'' ''no_such_condition'')
          (build_context (example_env None) (example_args False))) = (True, ''Passed'')"
proof -
  let ?rl = "scoped_rule ''pre_commit'' ''*.py'' ''no_such_condition''"
  let ?ctx = "build_context (example_env None) (example_args False)"
  have h1: "(case r_condition ?rl of None \<Rightarrow> [] | Some c \<Rightarrow> c) \<notin> set dispatched_conditions"
    by (simp add: scoped_rule_def dispatched_conditions_def)
  have h2: "\<not> wrong_trigger ?rl ?ctx"
    by (simp add: wrong_trigger_def scoped_rule_def ex_context)
  have h3: "matching (example_env None) ?rl ?ctx \<noteq> []"
    by (simp add: ex_matching_py)
  have h3': "rule_paths ?rl = [] \<or> matching (example_env None) ?rl ?ctx \<noteq> []"
    using h3 by simp
  from unknown_condition_passes [OF h1 h2 h3'] h1 h2 h3 show ?thesis by simp
qed

lemma check_file_matches_patterns_iff:
  "check_file_matches_patterns e f ps = list_ex (fnmatch e f) ps"
  by (induction ps) auto

text \<open>
  C8. For a rule with a non-empty \<open>paths\<close> list, where \<open>matching\<close> is the list of
  modified files that \<open>fnmatch\<close> some pattern: if no file matches, the rule is reported
  as passed with a skipped message and the context is left alone, whatever its
  condition; if some file matches, the call either stops at the trigger filter (and the
  condition is never evaluated) or evaluates the condition in the context that already
  holds \<open>matching_files\<close>, which is also the context it leaves behind.
\<close>
theorem paths_filter:
  assumes "rule_paths rl \<noteq> []"
  shows "(matching e rl ctx = [] \<longrightarrow>
            validate_rule e rl ctx =
              ((True, if wrong_trigger rl ctx then ''Skipped (wrong trigger)''
                      else ''Skipped (no matching files)''), ctx)) \<and>
         (matching e rl ctx \<noteq> [] \<longrightarrow>
            wrong_trigger rl ctx \<and>
              validate_rule e rl ctx = ((True, ''Skipped (wrong trigger)''), ctx) \<or>
            \<not> wrong_trigger rl ctx \<and>
              validate_rule e rl ctx =
                (evaluate_condition e rl (ctx\<lparr>c_matching_files := Some (matching e rl ctx)\<rparr>),
                 ctx\<lparr>c_matching_files := Some (matching e rl ctx)\<rparr>)) \<and>
         matching e rl ctx =
           filter (\<lambda>f. list_ex (fnmatch e f) (rule_paths rl))
             (case c_modified_files ctx of None \<Rightarrow> [] | Some fls \<Rightarrow> fls)"
  using assms
  by (auto simp: validate_rule_cases check_file_matches_patterns_iff matching_def)

text \<open>
  A secrets rule scoped to \<open>*.cs\<close> is skipped although the modified file holds a
  password; scoped to \<open>*.py\<close> it stores the file as \<open>matching_files\<close>.
\<close>
theorem paths_filter_witness:
  "rule_paths (scoped_rule ''pre_commit'' ''*.cs'' ''contains_potential_secrets'') \<noteq> [] \<and>
   matching (example_env None) (scoped_rule ''pre_commit'' ''*.cs'' ''contains_potential_secrets'')
     (build_context (example_env None) (example_args False)) = [] \<and>
   validate_rule (example_env None) (scoped_rule ''pre_commit'' ''*.cs'' ''contains_potential_secrets'')
     (build_context (example_env None) (example_args False)) =
       ((True, ''Skipped (no matching files)''), build_context (example_env None) (example_args False)) \<and>
   rule_paths (scoped_rule ''pre_commit'' ''*.py'' ''contains_potential_secrets'') \<noteq> [] \<and>
   matching (example_env None) (scoped_rule ''pre_commit'' ''*.py'' ''contains_potential_secrets'')
     (build_context (example_env None) (example_args False)) = [''src/settings.py''] \<and>
   snd (validate_rule (example_env None) (scoped_rule ''pre_commit'' ''*.py'' ''contains_potential_secrets'')
     (build_context (example_env None) (example_args False))) =
       (build_context (example_env None) (example_args False))
         \<lparr>c_matching_files := Some [''src/settings.py'']\<rparr>"
proof -
  let ?cs = "scoped_rule ''pre_commit'' ''*.cs'' ''contains_potential_secrets''"
  let ?py = "scoped_rule ''pre_commit'' ''*.py'' ''contains_potential_secrets''"
  let ?ctx = "build_context (example_env None) (example_args False)"
  have p1: "rule_paths ?cs \<noteq> []" by (simp add: rule_paths_def scoped_rule_def)
  have p2: "rule_paths ?py \<noteq> []" by (simp add: rule_paths_def scoped_rule_def)
  have t1: "\<not> wrong_trigger ?cs ?ctx" by (simp add: wrong_trigger_def scoped_rule_def ex_context)
  have t2: "\<not> wrong_trigger ?py ?ctx" by (simp add: wrong_trigger_def scoped_rule_def ex_context)
  from paths_filter [OF p1, of "example_env None" ?ctx] paths_filter [OF p2, of "example_env None" ?ctx]
    p1 p2 t1 t2
  show ?thesis by (simp add: ex_matching_cs ex_matching_py)
qed

text \<open>
  C10. A rule that fails and whose action is present but none of \<open>block\<close>, \<open>warn\<close>,
  \<open>require_review\<close>, \<open>require_approval\<close> leaves the three counters as they were; so
  the counters that \<open>validate_all_rules\<close> returns add up to the number of rules less
  the number of such failures, and a run that loads its rules and whose failures are
  all of that kind (or warnings) ends with status 0.
\<close>
theorem unknown_action_not_counted:
  "(\<not> fst (fst (validate_rule e rl ctx)) \<and> r_action rl = Some action \<and>
      action \<notin> set known_actions \<longrightarrow>
      rules_loop e (rl # rls) ctx counters = rules_loop e rls (snd (validate_rule e rl ctx)) counters) \<and>
   (rules cfg \<noteq> Null \<longrightarrow>
      (\<exists>passed warnings errors.
         validate_all_rules e (DocMapping cfg) ctx verbose = Inr (passed, warnings, errors) \<and>
         passed + warnings + errors +
           length (filter unknown_action_failure (evaluations e (rules_list cfg) ctx)) =
         length (rules_list cfg))) \<and>
   (parse_args opts = Inr a \<and> rules_docs e (a_rules_file a) = Some (DocMapping cfg) \<and>
      (if a_show_delegation a then delegation cfg \<noteq> Null else rules cfg \<noteq> Null) \<and>
      list_all (\<lambda>x. snd x \<or> warning_failure x \<or> unknown_action_failure x) (run_evaluations e a) \<longrightarrow>
      validator_exit e opts = 0)"
proof -
  have step: "\<not> fst (fst (validate_rule e rl ctx)) \<and> r_action rl = Some action \<and>
      action \<notin> set known_actions \<longrightarrow>
      rules_loop e (rl # rls) ctx counters = rules_loop e rls (snd (validate_rule e rl ctx)) counters"
    by (cases counters; cases "validate_rule e rl ctx")
       (auto simp: known_actions_def)
  have total: "rules cfg \<noteq> Null \<longrightarrow>
      (\<exists>passed warnings errors.
         validate_all_rules e (DocMapping cfg) ctx verbose = Inr (passed, warnings, errors) \<and>
         passed + warnings + errors +
           length (filter unknown_action_failure (evaluations e (rules_list cfg) ctx)) =
         length (rules_list cfg))"
    using evaluations_partition [of e "rules_list cfg" ctx]
    by (cases "rules cfg") (simp_all add: validate_all_rules_def rules_list_def rules_loop_counts)
  have no_block: "list_all (\<lambda>x. snd x \<or> warning_failure x \<or> unknown_action_failure x) xs \<Longrightarrow>
      \<not> list_ex blocking_failure xs" for xs
    by (induction xs) (auto simp: outcome_simps)
  have exit0: "parse_args opts = Inr a \<and> rules_docs e (a_rules_file a) = Some (DocMapping cfg) \<and>
      (if a_show_delegation a then delegation cfg \<noteq> Null else rules cfg \<noteq> Null) \<and>
      list_all (\<lambda>x. snd x \<or> warning_failure x \<or> unknown_action_failure x) (run_evaluations e a) \<longrightarrow>
      validator_exit e opts = 0"
  proof
    assume h: "parse_args opts = Inr a \<and> rules_docs e (a_rules_file a) = Some (DocMapping cfg) \<and>
      (if a_show_delegation a then delegation cfg \<noteq> Null else rules cfg \<noteq> Null) \<and>
      list_all (\<lambda>x. snd x \<or> warning_failure x \<or> unknown_action_failure x) (run_evaluations e a)"
    then have nb: "\<not> list_ex blocking_failure (run_evaluations e a)" by (simp add: no_block)
    have main: "validator_main e opts =
        (if a_show_delegation a then Inr 0
         else Inr (if filter blocking_failure (run_evaluations e a) \<noteq> [] \<and> \<not> a_check_only a
                   then 1 else 0))"
      using h
      by (cases "rules cfg"; cases "delegation cfg"; cases "cross_cutting cfg")
         (auto simp: validator_main_def load_rules_def print_delegation_info_def
            print_cross_cutting_info_def validate_all_rules_def run_evaluations_def
            rules_list_def rules_loop_counts split: if_splits)
    show "validator_exit e opts = 0"
      using nb by (simp add: validator_exit_def main blocking_nonempty)
  qed
  from step total exit0 show ?thesis by blast
qed

text \<open>One failing rule with the action \<open>notify\<close>: all counters stay 0 and the status is 0.\<close>
theorem unknown_action_not_counted_witness:
  "\<not> fst (fst (validate_rule (example_env None) (story_rule ''notify'')
               (build_context (example_env None) (example_args False)))) \<and>
   r_action (story_rule ''notify'') = Some ''notify'' \<and> ''notify'' \<notin> set known_actions \<and>
   rules_loop (example_env None) [story_rule ''notify'']
     (build_context (example_env None) (example_args False)) (0, 0, 0) = (0, 0, 0) \<and>
   validate_all_rules (example_env None) (rules_doc [story_rule ''notify''])
     (build_context (example_env None) (example_args False)) False = Inr (0, 0, 0) \<and>
   parse_args (example_options False) = Inr (example_args False) \<and>
   validator_exit (example_env (Some [story_rule ''notify''])) (example_options False) = 0"
proof -
  let ?ctx = "build_context (example_env None) (example_args False)"
  let ?cfg = "\<lparr>rules = Present [story_rule ''notify''], delegation = Absent,
               cross_cutting = Absent\<rparr>"
  have h1: "\<not> fst (fst (validate_rule (example_env None) (story_rule ''notify'') ?ctx))"
    by (simp add: ex_story_rule)
  have h2: "r_action (story_rule ''notify'') = Some ''notify''" by (simp add: story_rule_def)
  have h3: "''notify'' \<notin> set known_actions" by (simp add: known_actions_def)
  have h4: "rules_docs (example_env (Some [story_rule ''notify''])) (a_rules_file (example_args False))
              = Some (DocMapping ?cfg)"
    by (simp add: ex_rules_docs rules_doc_def)
  have h5: "list_all (\<lambda>x. snd x \<or> warning_failure x \<or> unknown_action_failure x)
              (run_evaluations (example_env (Some [story_rule ''notify''])) (example_args False))"
    by (simp add: ex_run_story outcome_simps h2)
  have h6: "parse_args (example_options False) = Inr (example_args False)" by (rule ex_parse)
  have h7: "if a_show_delegation (example_args False) then delegation ?cfg \<noteq> Null
            else rules ?cfg \<noteq> Null"
    by (simp add: ex_show_delegation)
  have a: "rules_loop (example_env None) [story_rule ''notify''] ?ctx (0, 0, 0) = (0, 0, 0)"
    using unknown_action_not_counted [where e = "example_env None" and rl = "story_rule ''notify''"
        and ctx = ?ctx and action = "''notify''" and rls = "[]" and counters = "(0, 0, 0)",
        THEN conjunct1] h1 h2 h3
    by simp
  have b: "validator_exit (example_env (Some [story_rule ''notify''])) (example_options False) = 0"
    using unknown_action_not_counted [where e = "example_env (Some [story_rule ''notify''])"
        and opts = "example_options False" and a = "example_args False" and cfg = ?cfg,
        THEN conjunct2, THEN conjunct2] h4 h5 h6 h7
    by blast
  from h1 h2 h3 h6 a b show ?thesis by (simp add: validate_all_rules_def rules_doc_def)
qed

section \<open>Properties of the secret scanner\<close>

text \<open>The matcher decides membership in the language of the pattern.\<close>

lemma nullable_iff: "nullable r \<longleftrightarrow> [] \<in> lang r"
  by (induction r) (auto intro: star.star_nil)

lemma lang_alt: "lang (alt r s) = lang r \<union> lang s"
  by (simp add: alt_def)

lemma lang_seq: "lang (seq r s) = lang (Seq r s)"
  by (auto simp: seq_def)

lemma star_Cons_elim:
  "x \<in> star A \<Longrightarrow> x = c # w \<Longrightarrow> \<exists>u v. w = u @ v \<and> c # u \<in> A \<and> v \<in> star A"
proof (induction arbitrary: w rule: star.induct)
  case star_nil
  then show ?case by simp
next
  case (star_step u v)
  show ?case
  proof (cases u)
    case Nil
    then show ?thesis using star_step by simp
  next
    case (Cons a u')
    then have "w = u' @ v" "c # u' \<in> A" using star_step.prems star_step.hyps(1) by auto
    then show ?thesis using star_step.hyps(2) by blast
  qed
qed

lemma star_Cons: "c # w \<in> star A \<longleftrightarrow> (\<exists>u v. w = u @ v \<and> c # u \<in> A \<and> v \<in> star A)"
proof
  assume "c # w \<in> star A"
  then show "\<exists>u v. w = u @ v \<and> c # u \<in> A \<and> v \<in> star A" by (rule star_Cons_elim) simp
next
  assume "\<exists>u v. w = u @ v \<and> c # u \<in> A \<and> v \<in> star A"
  then obtain u v where "w = u @ v" "c # u \<in> A" "v \<in> star A" by blast
  then show "c # w \<in> star A" using star.star_step [of "c # u" A v] by simp
qed

lemma lang_deriv: "lang (deriv c r) = {w. c # w \<in> lang r}"
proof (induction r)
  case (Seq r s)
  then show ?case
    by (auto simp: lang_alt lang_seq nullable_iff Cons_eq_append_conv)
next
  case (Star r)
  then show ?case by (auto simp: lang_seq star_Cons)
qed (auto simp: lang_alt)

lemma re_match_iff: "re_match r s \<longleftrightarrow> (\<exists>u v. s = u @ v \<and> u \<in> lang r)"
proof (induction s arbitrary: r)
  case Nil
  then show ?case by (simp add: nullable_iff)
next
  case (Cons c s)
  show ?case
    by (auto simp: Cons nullable_iff lang_deriv Cons_eq_append_conv)
qed

lemma re_search_iff: "re_search r s \<longleftrightarrow> (\<exists>p u v. s = p @ u @ v \<and> u \<in> lang r)"
proof (induction s)
  case Nil
  then show ?case by (simp add: nullable_iff)
next
  case (Cons c s)
  have "(\<exists>p u v. c # s = p @ u @ v \<and> u \<in> lang r) \<longleftrightarrow>
        (\<exists>u v. c # s = u @ v \<and> u \<in> lang r) \<or> (\<exists>p u v. s = p @ u @ v \<and> u \<in> lang r)"
  proof
    assume "\<exists>p u v. c # s = p @ u @ v \<and> u \<in> lang r"
    then obtain p u v where d: "c # s = p @ u @ v" "u \<in> lang r" by blast
    show "(\<exists>u v. c # s = u @ v \<and> u \<in> lang r) \<or> (\<exists>p u v. s = p @ u @ v \<and> u \<in> lang r)"
    proof (cases p)
      case Nil
      then show ?thesis using d by auto
    next
      case (Cons a p')
      then have "s = p' @ u @ v" using d by simp
      then show ?thesis using d(2) by blast
    qed
  next
    assume "(\<exists>u v. c # s = u @ v \<and> u \<in> lang r) \<or> (\<exists>p u v. s = p @ u @ v \<and> u \<in> lang r)"
    then show "\<exists>p u v. c # s = p @ u @ v \<and> u \<in> lang r"
    proof
      assume "\<exists>u v. c # s = u @ v \<and> u \<in> lang r"
      then obtain u v where "c # s = [] @ u @ v" "u \<in> lang r" by auto
      then show ?thesis by blast
    next
      assume "\<exists>p u v. s = p @ u @ v \<and> u \<in> lang r"
      then obtain p u v where "c # s = (c # p) @ u @ v" "u \<in> lang r" by auto
      then show ?thesis by blast
    qed
  qed
  then show ?case by (simp add: Cons re_match_iff)
qed

lemma in_lang_Seq: "w \<in> lang (Seq r s) \<longleftrightarrow> (\<exists>u v. w = u @ v \<and> u \<in> lang r \<and> v \<in> lang s)"
  by auto

lemma in_lang_Atom: "w \<in> lang (Atom a) \<longleftrightarrow> (\<exists>c. w = [c] \<and> cmatch a c)"
  by auto

lemma in_lang_Seq_Atom:
  "w \<in> lang (Seq (Atom a) s) \<longleftrightarrow> (\<exists>c v. w = c # v \<and> cmatch a c \<and> v \<in> lang s)"
proof
  assume "w \<in> lang (Seq (Atom a) s)"
  then obtain u v where "w = u @ v" "u \<in> lang (Atom a)" "v \<in> lang s"
    unfolding in_lang_Seq by blast
  then show "\<exists>c v. w = c # v \<and> cmatch a c \<and> v \<in> lang s" by auto
next
  assume "\<exists>c v. w = c # v \<and> cmatch a c \<and> v \<in> lang s"
  then obtain c v where "w = [c] @ v" "[c] \<in> lang (Atom a)" "v \<in> lang s" by auto
  then show "w \<in> lang (Seq (Atom a) s)" unfolding in_lang_Seq by blast
qed

lemma in_lang_istr: "w \<in> lang (istr k) \<longleftrightarrow> map lower w = map lower k"
proof (induction k arbitrary: w)
  case Nil
  then show ?case by simp
next
  case (Cons a k)
  have "w \<in> lang (istr (a # k)) \<longleftrightarrow> (\<exists>c v. w = c # v \<and> lower c = lower a \<and> map lower v = map lower k)"
    using Cons by (simp only: istr.simps in_lang_Seq_Atom cmatch.simps)
  also have "\<dots> \<longleftrightarrow> map lower w = map lower (a # k)"
    by (cases w) auto
  finally show ?case .
qed

lemma in_star_atoms: "w \<in> star (lang (Atom a)) \<longleftrightarrow> list_all (cmatch a) w"
proof
  assume "w \<in> star (lang (Atom a))"
  then show "list_all (cmatch a) w" by (induction rule: star.induct) auto
next
  assume "list_all (cmatch a) w"
  then show "w \<in> star (lang (Atom a))"
  proof (induction w)
    case Nil
    then show ?case by (simp add: star.star_nil)
  next
    case (Cons c w)
    then have "[c] \<in> lang (Atom a)" "w \<in> star (lang (Atom a))" by auto
    from star.star_step [OF this] show ?case by simp
  qed
qed

lemma in_lang_spaces: "w \<in> lang (Star (Atom Space)) \<longleftrightarrow> list_all is_space w"
proof -
  have "cmatch Space = is_space" by (rule ext) simp
  then show ?thesis using in_star_atoms [of w Space] by (simp only: lang.simps(6))
qed

lemma in_lang_Plus_atom:
  "w \<in> lang (Plus (Atom a)) \<longleftrightarrow> w \<noteq> [] \<and> list_all (cmatch a) w"
proof -
  have "w \<in> lang (Plus (Atom a)) \<longleftrightarrow> (\<exists>c v. w = c # v \<and> cmatch a c \<and> list_all (cmatch a) v)"
    by (simp only: Plus_def in_lang_Seq_Atom lang.simps(6) in_star_atoms)
  also have "\<dots> \<longleftrightarrow> w \<noteq> [] \<and> list_all (cmatch a) w"
    by (cases w) auto
  finally show ?thesis .
qed

lemma in_lang_assign:
  "w \<in> lang assign \<longleftrightarrow>
     (\<exists>ws1 sep ws2. w = ws1 @ [sep] @ ws2 \<and> list_all is_space ws1 \<and>
        sep \<in> {CHR ''='', CHR '':''} \<and> list_all is_space ws2)"
proof -
  have "w \<in> lang assign \<longleftrightarrow>
      (\<exists>u v. w = u @ v \<and> list_all is_space u \<and>
         (\<exists>c v'. v = c # v' \<and> cmatch (OneOf ''=:'') c \<and> list_all is_space v'))"
    by (simp only: assign_def in_lang_Seq [of w "Star (Atom Space)"] in_lang_Seq_Atom in_lang_spaces)
  also have "\<dots> \<longleftrightarrow> (\<exists>ws1 sep ws2. w = ws1 @ [sep] @ ws2 \<and> list_all is_space ws1 \<and>
        sep \<in> {CHR ''='', CHR '':''} \<and> list_all is_space ws2)"
    by (simp, blast)
  finally show ?thesis .
qed

lemma in_lang_keyword:
  "w \<in> lang (Alt (istr ''password'') (Alt (istr ''passwd'') (istr ''pwd''))) \<longleftrightarrow>
     map lower w \<in> {''password'', ''passwd'', ''pwd''}"
proof -
  have "map lower ''password'' = ''password''" "map lower ''passwd'' = ''passwd''"
    "map lower ''pwd'' = ''pwd''"
    by (simp_all add: lower_def is_upper_def)
  then show ?thesis
    by (simp only: lang.simps(4) Un_iff in_lang_istr insert_iff empty_iff) blast
qed

lemma nq: "cmatch (NoneOf quote) = (\<lambda>c. c \<notin> set quote)" by (rule ext) simp

lemma pw_step1:
  "w \<in> lang password_re \<longleftrightarrow>
     (\<exists>kw r1. w = kw @ r1 \<and> map lower kw \<in> {''password'', ''passwd'', ''pwd''} \<and>
       (\<exists>a r2. r1 = a @ r2 \<and> a \<in> lang assign \<and>
         (\<exists>q1 r3. r2 = q1 # r3 \<and> q1 \<in> set quote \<and>
           (\<exists>val r4. r3 = val @ r4 \<and> (val \<noteq> [] \<and> list_all (\<lambda>c. c \<notin> set quote) val) \<and>
              (\<exists>q2. r4 = [q2] \<and> q2 \<in> set quote)))))"
  unfolding password_re_def
  apply (subst in_lang_Seq)
  apply (subst in_lang_keyword)
  apply (subst in_lang_Seq)
  apply (subst in_lang_Seq_Atom)
  apply (subst in_lang_Seq)
  apply (subst in_lang_Plus_atom)
  apply (subst in_lang_Atom)
  apply (simp only: cmatch.simps nq)
  done

lemma in_lang_password:
  "w \<in> lang password_re \<longleftrightarrow>
     (\<exists>kw ws1 sep ws2 q1 val q2.
        w = kw @ ws1 @ [sep] @ ws2 @ [q1] @ val @ [q2] \<and>
        map lower kw \<in> {''password'', ''passwd'', ''pwd''} \<and>
        list_all is_space ws1 \<and> sep \<in> {CHR ''='', CHR '':''} \<and> list_all is_space ws2 \<and>
        q1 \<in> set quote \<and> val \<noteq> [] \<and> list_all (\<lambda>c. c \<notin> set quote) val \<and> q2 \<in> set quote)"
  (is "?L \<longleftrightarrow> ?R")
proof
  assume ?L
  then obtain kw r1 a r2 q1 r3 val r4 q2 where
    1: "w = kw @ r1" "map lower kw \<in> {''password'', ''passwd'', ''pwd''}" and
    2: "r1 = a @ r2" "a \<in> lang assign" and
    3: "r2 = q1 # r3" "q1 \<in> set quote" and
    4: "r3 = val @ r4" "val \<noteq> []" "list_all (\<lambda>c. c \<notin> set quote) val" and
    6: "r4 = [q2]" "q2 \<in> set quote"
    unfolding pw_step1 by (elim exE conjE)
  from 2(2) obtain ws1 sep ws2 where
    5: "a = ws1 @ [sep] @ ws2" "list_all is_space ws1" "sep \<in> {CHR ''='', CHR '':''}"
       "list_all is_space ws2"
    unfolding in_lang_assign by (elim exE conjE)
  have "w = kw @ ws1 @ [sep] @ ws2 @ [q1] @ val @ [q2]"
    by (simp add: 1(1) 2(1) 3(1) 4(1) 5(1) 6(1))
  with 1(2) 5(2-4) 3(2) 4(2-3) 6(2) show ?R by (intro exI conjI)
next
  assume ?R
  then obtain kw ws1 sep ws2 q1 val q2 where
    w: "w = kw @ ws1 @ [sep] @ ws2 @ [q1] @ val @ [q2]" and
    k: "map lower kw \<in> {''password'', ''passwd'', ''pwd''}" and
    s: "list_all is_space ws1" "sep \<in> {CHR ''='', CHR '':''}" "list_all is_space ws2" and
    q: "q1 \<in> set quote" "val \<noteq> []" "list_all (\<lambda>c. c \<notin> set quote) val" "q2 \<in> set quote"
    by (elim exE conjE)
  have a: "ws1 @ [sep] @ ws2 \<in> lang assign"
    unfolding in_lang_assign using s by (intro exI conjI) (rule refl)
  have e: "w = kw @ (ws1 @ [sep] @ ws2) @ q1 # val @ [q2]" using w by simp
  show ?L unfolding pw_step1
    apply (rule exI [of _ kw], rule exI [of _ "(ws1 @ [sep] @ ws2) @ q1 # val @ [q2]"])
    apply (intro conjI e k)
    apply (rule exI [of _ "ws1 @ [sep] @ ws2"], rule exI [of _ "q1 # val @ [q2]"])
    apply (intro conjI refl a)
    apply (rule exI [of _ q1], rule exI [of _ "val @ [q2]"])
    apply (intro conjI refl q)
    apply (rule exI [of _ val], rule exI [of _ "[q2]"])
    apply (intro conjI refl q)
    apply (rule exI [of _ q2])
    apply (intro conjI refl q)
    done
qed

lemma re_search_password:
  "re_search password_re content \<longleftrightarrow>
     (\<exists>pre kw ws1 sep ws2 q1 val q2 post.
        content = pre @ kw @ ws1 @ [sep] @ ws2 @ [q1] @ val @ [q2] @ post \<and>
        map lower kw \<in> {''password'', ''passwd'', ''pwd''} \<and>
        list_all is_space ws1 \<and> sep \<in> {CHR ''='', CHR '':''} \<and> list_all is_space ws2 \<and>
        q1 \<in> set quote \<and> val \<noteq> [] \<and> list_all (\<lambda>c. c \<notin> set quote) val \<and> q2 \<in> set quote)"
  (is "?L \<longleftrightarrow> ?R")
proof
  assume ?L
  then obtain p u v where c: "content = p @ u @ v" and u: "u \<in> lang password_re"
    unfolding re_search_iff by (elim exE conjE)
  from u obtain kw ws1 sep ws2 q1 val q2 where
    w: "u = kw @ ws1 @ [sep] @ ws2 @ [q1] @ val @ [q2]" and
    k: "map lower kw \<in> {''password'', ''passwd'', ''pwd''}" and
    s: "list_all is_space ws1" "sep \<in> {CHR ''='', CHR '':''}" "list_all is_space ws2" and
    q: "q1 \<in> set quote" "val \<noteq> []" "list_all (\<lambda>c. c \<notin> set quote) val" "q2 \<in> set quote"
    unfolding in_lang_password by (elim exE conjE)
  have "content = p @ kw @ ws1 @ [sep] @ ws2 @ [q1] @ val @ [q2] @ v" using c w by simp
  with k s q show ?R by (intro exI conjI)
next
  assume ?R
  then obtain pre kw ws1 sep ws2 q1 val q2 post where
    c: "content = pre @ kw @ ws1 @ [sep] @ ws2 @ [q1] @ val @ [q2] @ post" and
    k: "map lower kw \<in> {''password'', ''passwd'', ''pwd''}" and
    s: "list_all is_space ws1" "sep \<in> {CHR ''='', CHR '':''}" "list_all is_space ws2" and
    q: "q1 \<in> set quote" "val \<noteq> []" "list_all (\<lambda>c. c \<notin> set quote) val" "q2 \<in> set quote"
    by (elim exE conjE)
  have u: "kw @ ws1 @ [sep] @ ws2 @ [q1] @ val @ [q2] \<in> lang password_re"
    unfolding in_lang_password using k s q by (intro exI conjI) (rule refl)
  have "content = pre @ (kw @ ws1 @ [sep] @ ws2 @ [q1] @ val @ [q2]) @ post" using c by simp
  with u show ?L unfolding re_search_iff by (intro exI conjI)
qed

lemma finding_iff:
  "''Hardcoded password'' \<in> set (check_for_potential_secrets content) \<longleftrightarrow>
     re_search password_re content"
  by (auto simp: check_for_potential_secrets_def secret_patterns_def)

lemma settings_py_findings: "check_for_potential_secrets settings_py = [''Hardcoded password'']"
  by code_simp

lemma comment_py_findings: "check_for_potential_secrets comment_py = []"
  by code_simp

text \<open>
  C9. On every text of code points below 256, \<open>check_for_potential_secrets\<close> reports
  \<open>Hardcoded password\<close> exactly for the texts that contain, in this order, one of the
  words \<open>password\<close>, \<open>passwd\<close>, \<open>pwd\<close> in any case, optional white space (the class
  \<open>\s\<close>, which includes the no-break space), \<open>=\<close> or \<open>:\<close>, optional white space,
  a quote character, a non-empty value without quote characters, and a quote
  character. The file \<open>password = "hunter2shhh"\<close> has the finding; a comment that
  only mentions the word has no finding at all.
\<close>
theorem hardcoded_password_finding:
  "(''Hardcoded password'' \<in> set (check_for_potential_secrets content) \<longleftrightarrow>
     (\<exists>pre kw ws1 sep ws2 q1 val q2 post.
        content = pre @ kw @ ws1 @ [sep] @ ws2 @ [q1] @ val @ [q2] @ post \<and>
        map lower kw \<in> {''password'', ''passwd'', ''pwd''} \<and>
        list_all is_space ws1 \<and> sep \<in> {CHR ''='', CHR '':''} \<and> list_all is_space ws2 \<and>
        q1 \<in> set quote \<and> val \<noteq> [] \<and> list_all (\<lambda>c. c \<notin> set quote) val \<and>
        q2 \<in> set quote)) \<and>
   check_for_potential_secrets settings_py = [''Hardcoded password''] \<and>
   check_for_potential_secrets comment_py = []"
  using finding_iff [of content] re_search_password [of content]
    settings_py_findings comment_py_findings
  by (simp only:)

text \<open>
  An assignment in mixed case with single quotes, an assignment written with no-break
  spaces, the assignment of \<open>settings_py\<close>, and the comment.
\<close>
theorem hardcoded_password_finding_witness:
  "''Hardcoded password'' \<in>
     set (check_for_potential_secrets (''db_PassWd :'' @ [CHR 0x27] @ ''x'' @ [CHR 0x27] @ '' # dev'')) \<and>
   ''Hardcoded password'' \<in>
     set (check_for_potential_secrets
            (''password'' @ [CHR 0xA0] @ ''='' @ [CHR 0xA0, CHR 0x27] @ ''hunter2'' @ [CHR 0x27])) \<and>
   ''Hardcoded password'' \<in> set (check_for_potential_secrets settings_py) \<and>
   ''Hardcoded password'' \<notin> set (check_for_potential_secrets comment_py)"
proof -
  have l: "map lower ''PassWd'' = ''passwd''" by code_simp
  have d: "\<exists>pre kw ws1 sep ws2 q1 val q2 post.
        ''db_PassWd :'' @ [CHR 0x27] @ ''x'' @ [CHR 0x27] @ '' # dev'' =
          pre @ kw @ ws1 @ [sep] @ ws2 @ [q1] @ val @ [q2] @ post \<and>
        map lower kw \<in> {''password'', ''passwd'', ''pwd''} \<and>
        list_all is_space ws1 \<and> sep \<in> {CHR ''='', CHR '':''} \<and> list_all is_space ws2 \<and>
        q1 \<in> set quote \<and> val \<noteq> [] \<and> list_all (\<lambda>c. c \<notin> set quote) val \<and>
        q2 \<in> set quote"
    apply (rule exI [of _ "''db_''"], rule exI [of _ "''PassWd''"], rule exI [of _ "'' ''"])
    apply (rule exI [of _ "CHR '':''"], rule exI [of _ "[]"], rule exI [of _ "CHR 0x27"])
    apply (rule exI [of _ "''x''"], rule exI [of _ "CHR 0x27"], rule exI [of _ "'' # dev''"])
    apply (simp only: l)
    apply (simp add: is_space_def quote_def)
    done
  from hardcoded_password_finding [of "''db_PassWd :'' @ [CHR 0x27] @ ''x'' @ [CHR 0x27] @ '' # dev''"] d
  have a: "''Hardcoded password'' \<in>
     set (check_for_potential_secrets (''db_PassWd :'' @ [CHR 0x27] @ ''x'' @ [CHR 0x27] @ '' # dev''))"
    by (simp only:)
  have l': "map lower ''password'' = ''password''" by code_simp
  have d': "\<exists>pre kw ws1 sep ws2 q1 val q2 post.
        ''password'' @ [CHR 0xA0] @ ''='' @ [CHR 0xA0, CHR 0x27] @ ''hunter2'' @ [CHR 0x27] =
          pre @ kw @ ws1 @ [sep] @ ws2 @ [q1] @ val @ [q2] @ post \<and>
        map lower kw \<in> {''password'', ''passwd'', ''pwd''} \<and>
        list_all is_space ws1 \<and> sep \<in> {CHR ''='', CHR '':''} \<and> list_all is_space ws2 \<and>
        q1 \<in> set quote \<and> val \<noteq> [] \<and> list_all (\<lambda>c. c \<notin> set quote) val \<and>
        q2 \<in> set quote"
    apply (rule exI [of _ "[]"], rule exI [of _ "''password''"], rule exI [of _ "[CHR 0xA0]"])
    apply (rule exI [of _ "CHR ''=''"], rule exI [of _ "[CHR 0xA0]"], rule exI [of _ "CHR 0x27"])
    apply (rule exI [of _ "''hunter2''"], rule exI [of _ "CHR 0x27"], rule exI [of _ "[]"])
    apply (simp only: l')
    apply (simp add: is_space_def quote_def)
    done
  from hardcoded_password_finding
         [of "''password'' @ [CHR 0xA0] @ ''='' @ [CHR 0xA0, CHR 0x27] @ ''hunter2'' @ [CHR 0x27]"] d'
  have a': "''Hardcoded password'' \<in>
     set (check_for_potential_secrets
            (''password'' @ [CHR 0xA0] @ ''='' @ [CHR 0xA0, CHR 0x27] @ ''hunter2'' @ [CHR 0x27]))"
    by (simp only:)
  from hardcoded_password_finding [of "[]"]
  have b: "check_for_potential_secrets settings_py = [''Hardcoded password'']"
    and c: "check_for_potential_secrets comment_py = []" by (simp_all only:)
  from a a' b c show ?thesis by simp
qed

end
